theory Spec2Isabelle
  imports Main "HOL-Library.AList" "HOL-Library.Word"
begin

section \<open>Session registry (sessions.js)\<close>

text \<open>
  The registry holds two JavaScript \<open>Map\<close>s. A \<open>Map\<close> is modelled as an association
  list in insertion order: \<open>Map.get\<close> is \<open>map_of\<close>, \<open>Map.has k\<close> is
  \<open>map_of m k \<noteq> None\<close>, \<open>Map.set\<close> is \<open>AList.update\<close> (overwrite in place, or append
  a new key at the end), \<open>Map.delete\<close> is \<open>AList.delete\<close>, \<open>Map.size\<close> is \<open>length\<close>.
  Socket identifiers, session codes and feedback levels are strings.
\<close>

type_synonym socketId = string
type_synonym sessionCode = string
type_synonym feedbackLevel = string

datatype role = Teacher | Student

record session =
  teacherSocketId :: socketId
  clients :: "(socketId \<times> feedbackLevel) list"
  createdAt :: int

record registry =
  sessions :: "(sessionCode \<times> session) list"
  socketToSession :: "(socketId \<times> (sessionCode \<times> role)) list"

definition FEEDBACK_LEVELS :: "feedbackLevel list" where
  "FEEDBACK_LEVELS = [''gotit'', ''neutral'', ''confused'', ''lost'']"

definition empty_registry :: registry where
  "empty_registry = \<lparr>sessions = [], socketToSession = []\<rparr>"

subsection \<open>Session code generation\<close>

definition chars :: string where
  "chars = ''ABCDEFGHJKLMNPQRSTUVWXYZ23456789''"

text \<open>
  \<open>Math.floor(Math.random() * chars.length)\<close> is an index between 0 and 31; one such
  draw is a 5-bit word. The random source of one call of \<open>generateCode\<close> is the list
  of the draws it will see. Each round of the \<open>do ... while\<close> loop consumes six draws;
  the loop has no bound of its own, and a source that is used up before a fresh code is
  found gives \<open>None\<close>: the call has not returned.
\<close>

type_synonym draw = "5 word"

fun generateCode :: "(sessionCode \<times> session) list \<Rightarrow> draw list \<Rightarrow> sessionCode option" where
  "generateCode ss rs =
     (if length rs < 6 then None
      else let code = map (\<lambda>r. chars ! unat r) (take 6 rs)
           in if map_of ss code \<noteq> None then generateCode ss (drop 6 rs) else Some code)"

declare generateCode.simps [simp del]

subsection \<open>Session CRUD\<close>

definition createSession ::
  "socketId \<Rightarrow> int \<Rightarrow> draw list \<Rightarrow> registry \<Rightarrow> (sessionCode \<times> registry) option" where
  "createSession teacher now rs s =
     (case generateCode (sessions s) rs of
        None \<Rightarrow> None
      | Some code \<Rightarrow>
          Some (code,
            s\<lparr>sessions :=
                AList.update code
                  \<lparr>teacherSocketId = teacher, clients = [], createdAt = now\<rparr> (sessions s),
              socketToSession :=
                AList.update teacher (code, Teacher) (socketToSession s)\<rparr>))"

definition sessionExists :: "sessionCode \<Rightarrow> registry \<Rightarrow> bool" where
  "sessionExists code s = (map_of (sessions s) code \<noteq> None)"

definition addStudent :: "sessionCode \<Rightarrow> socketId \<Rightarrow> registry \<Rightarrow> bool \<times> registry" where
  "addStudent code sid s =
     (case map_of (sessions s) code of
        None \<Rightarrow> (False, s)
      | Some sess \<Rightarrow>
          (True,
           s\<lparr>sessions :=
               AList.update code
                 (sess\<lparr>clients := AList.update sid ''neutral'' (clients sess)\<rparr>) (sessions s),
             socketToSession :=
               AList.update sid (code, Student) (socketToSession s)\<rparr>))"

definition updateFeedback ::
  "sessionCode \<Rightarrow> socketId \<Rightarrow> feedbackLevel \<Rightarrow> registry \<Rightarrow> bool \<times> registry" where
  "updateFeedback code sid level s =
     (if level \<notin> set FEEDBACK_LEVELS then (False, s)
      else case map_of (sessions s) code of
        None \<Rightarrow> (False, s)
      | Some sess \<Rightarrow>
          if map_of (clients sess) sid = None then (False, s)
          else (True,
                s\<lparr>sessions :=
                    AList.update code
                      (sess\<lparr>clients := AList.update sid level (clients sess)\<rparr>) (sessions s)\<rparr>))"

subsection \<open>Aggregate counts\<close>

text \<open>
  The result of \<open>getAggregate\<close> is a JavaScript object: property names with numbers.
  \<open>counts[level]++\<close> adds one to a property that holds a number, and stores \<open>NaN\<close>
  under a name that has no number yet (\<open>undefined + 1\<close>).
\<close>

datatype jsnum = Num nat | NaN

type_synonym counts = "(string \<times> jsnum) list"

definition increment :: "string \<Rightarrow> counts \<Rightarrow> counts" where
  "increment level cs =
     (case map_of cs level of
        Some (Num n) \<Rightarrow> AList.update level (Num (n + 1)) cs
      | _ \<Rightarrow> AList.update level NaN cs)"

definition getAggregate :: "sessionCode \<Rightarrow> registry \<Rightarrow> counts option" where
  "getAggregate code s =
     (case map_of (sessions s) code of
        None \<Rightarrow> None
      | Some sess \<Rightarrow>
          Some (AList.update ''total'' (Num (length (clients sess)))
                 (fold increment (map snd (clients sess))
                    [(''gotit'', Num 0), (''neutral'', Num 0),
                     (''confused'', Num 0), (''lost'', Num 0)])))"

subsection \<open>Disconnect and end of session\<close>

definition removeSocket ::
  "socketId \<Rightarrow> registry \<Rightarrow> (sessionCode \<times> role) option \<times> registry" where
  "removeSocket sid s =
     (case map_of (socketToSession s) sid of
        None \<Rightarrow> (None, s)
      | Some (code, role) \<Rightarrow>
          let s1 = (case map_of (sessions s) code of
                      None \<Rightarrow> s
                    | Some sess \<Rightarrow>
                        if role = Student
                        then s\<lparr>sessions :=
                                 AList.update code
                                   (sess\<lparr>clients := AList.delete sid (clients sess)\<rparr>)
                                   (sessions s)\<rparr>
                        else s)
          in (Some (code, role),
              s1\<lparr>socketToSession := AList.delete sid (socketToSession s1)\<rparr>))"

definition endSession :: "sessionCode \<Rightarrow> registry \<Rightarrow> bool \<times> registry" where
  "endSession code s =
     (case map_of (sessions s) code of
        None \<Rightarrow> (False, s)
      | Some sess \<Rightarrow>
          (True,
           s\<lparr>socketToSession :=
               fold AList.delete (map fst (clients sess))
                 (AList.delete (teacherSocketId sess) (socketToSession s)),
             sessions := AList.delete code (sessions s)\<rparr>))"

subsection \<open>Sequences of registry operations\<close>

datatype op =
    CreateSession socketId int "draw list"
  | AddStudent sessionCode socketId
  | UpdateFeedback sessionCode socketId feedbackLevel
  | RemoveSocket socketId
  | EndSession sessionCode

fun apply_op :: "op \<Rightarrow> registry \<Rightarrow> registry option" where
  "apply_op (CreateSession teacher now rs) s = map_option snd (createSession teacher now rs s)"
| "apply_op (AddStudent code sid) s = Some (snd (addStudent code sid s))"
| "apply_op (UpdateFeedback code sid level) s = Some (snd (updateFeedback code sid level s))"
| "apply_op (RemoveSocket sid) s = Some (snd (removeSocket sid s))"
| "apply_op (EndSession code) s = Some (snd (endSession code s))"

fun run :: "op list \<Rightarrow> registry \<Rightarrow> registry option" where
  "run [] s = Some s"
| "run (x # xs) s = (case apply_op x s of None \<Rightarrow> None | Some s' \<Rightarrow> run xs s')"

subsection \<open>Predicates on registry states\<close>

text \<open>Every session's owner is absent from that session's participant map.\<close>

definition owner_not_participant :: "registry \<Rightarrow> bool" where
  "owner_not_participant s =
     list_all (\<lambda>(code, sess). map_of (clients sess) (teacherSocketId sess) = None) (sessions s)"

text \<open>
  \<open>self_join x s\<close>: the operation \<open>x\<close> is an \<open>addStudent\<close> whose connection is the
  owner of the session it joins. \<open>no_self_join xs s\<close>: no operation of the sequence is one,
  in the state where it is applied.
\<close>

fun self_join :: "op \<Rightarrow> registry \<Rightarrow> bool" where
  "self_join (AddStudent code sid) s =
     (case map_of (sessions s) code of None \<Rightarrow> False | Some sess \<Rightarrow> teacherSocketId sess = sid)"
| "self_join _ s = False"

fun no_self_join :: "op list \<Rightarrow> registry \<Rightarrow> bool" where
  "no_self_join [] s = True"
| "no_self_join (x # xs) s =
     (\<not> self_join x s \<and> (case apply_op x s of None \<Rightarrow> True | Some s' \<Rightarrow> no_self_join xs s'))"

text \<open>
  A reverse-index entry \<open>{code, role}\<close> of a connection matches the forward map: the
  session exists, and the connection is its teacher, or a key of its participants.
\<close>

definition entry_matches :: "registry \<Rightarrow> socketId \<Rightarrow> sessionCode \<times> role \<Rightarrow> bool" where
  "entry_matches s sid info =
     (case map_of (sessions s) (fst info) of
        None \<Rightarrow> False
      | Some sess \<Rightarrow>
          (case snd info of
             Teacher \<Rightarrow> teacherSocketId sess = sid
           | Student \<Rightarrow> map_of (clients sess) sid \<noteq> None))"

definition reverse_index_sound :: "registry \<Rightarrow> bool" where
  "reverse_index_sound s =
     list_all
       (\<lambda>sid. case map_of (socketToSession s) sid of
                None \<Rightarrow> True
              | Some info \<Rightarrow> entry_matches s sid info)
       (map fst (socketToSession s))"


definition levels_valid :: "registry \<Rightarrow> bool" where
  "levels_valid s =
     list_all
       (\<lambda>(code, sess). list_all (\<lambda>(sid, level). level \<in> set FEEDBACK_LEVELS) (clients sess))
       (sessions s)"

text \<open>A \<open>Map\<close> holds each key once.\<close>

definition distinct_keys :: "registry \<Rightarrow> bool" where
  "distinct_keys s =
     (distinct (map fst (sessions s)) \<and> distinct (map fst (socketToSession s)) \<and>
      list_all (\<lambda>(code, sess). distinct (map fst (clients sess))) (sessions s))"

text \<open>The number of participant entries of a session other than its teacher's own.\<close>

definition participants_excluding_teacher :: "session \<Rightarrow> nat" where
  "participants_excluding_teacher sess =
     length (filter (\<lambda>(sid, level). sid \<noteq> teacherSocketId sess) (clients sess))"

section \<open>Event coordinator (index.js)\<close>

text \<open>
  The server's state is the registry and the rate-limiting map. A handler returns the new
  state and what it sends, in order: \<open>socket.join\<close>, \<open>socket.emit\<close> (to the requester)
  and \<open>io.in(code).emit\<close> (to the room). The time \<open>now\<close> is what \<open>Date.now()\<close> returns
  while the event is handled.

  Payload codes are strings. \<open>norm\<close> stands for \<open>(code || "").toUpperCase().trim()\<close>, built
  into the language; every handler takes it as a parameter, and \<open>normalize_ascii\<close> is its
  restriction to ASCII text.
\<close>

record server =
  reg :: registry
  lastFeedbackTime :: "(socketId \<times> int) list"

definition THROTTLE_MS :: int where
  "THROTTLE_MS = 500"

datatype message =
    SessionCreated sessionCode
  | JoinedSession sessionCode
  | JoinError string
  | AggregateUpdate "counts option"
  | SessionEnded

datatype action =
    JoinRoom socketId sessionCode
  | Emit socketId message
  | Broadcast sessionCode message

definition toUpperCase_ascii :: "string \<Rightarrow> string" where
  "toUpperCase_ascii =
     map (\<lambda>c. case map_of (zip ''abcdefghijklmnopqrstuvwxyz'' ''ABCDEFGHIJKLMNOPQRSTUVWXYZ'') c of
                 None \<Rightarrow> c
               | Some u \<Rightarrow> u)"

definition whitespace_ascii :: "char list" where
  "whitespace_ascii = [CHR '' '', CHR 0x09, CHR 0x0A, CHR 0x0B, CHR 0x0C, CHR 0x0D]"

definition trim_ascii :: "string \<Rightarrow> string" where
  "trim_ascii str =
     rev (dropWhile (\<lambda>c. c \<in> set whitespace_ascii)
       (rev (dropWhile (\<lambda>c. c \<in> set whitespace_ascii) str)))"

definition normalize_ascii :: "string \<Rightarrow> string" where
  "normalize_ascii code = trim_ascii (toUpperCase_ascii code)"

definition on_createSession ::
  "socketId \<Rightarrow> int \<Rightarrow> draw list \<Rightarrow> server \<Rightarrow> (server \<times> action list) option" where
  "on_createSession sid now rs st =
     (case createSession sid now rs (reg st) of
        None \<Rightarrow> None
      | Some (code, r) \<Rightarrow>
          Some (st\<lparr>reg := r\<rparr>, [JoinRoom sid code, Emit sid (SessionCreated code)]))"

definition on_joinSession ::
  "(string \<Rightarrow> string) \<Rightarrow> socketId \<Rightarrow> string \<Rightarrow> server \<Rightarrow> server \<times> action list" where
  "on_joinSession norm sid code st =
     (let normalizedCode = norm code
      in if \<not> sessionExists normalizedCode (reg st)
         then (st, [Emit sid (JoinError ''Invalid session code.'')])
         else let (added, r) = addStudent normalizedCode sid (reg st)
              in if \<not> added
                 then (st\<lparr>reg := r\<rparr>, [Emit sid (JoinError ''Could not join session.'')])
                 else (st\<lparr>reg := r\<rparr>,
                       [JoinRoom sid normalizedCode,
                        Emit sid (JoinedSession normalizedCode),
                        Broadcast normalizedCode
                          (AggregateUpdate (getAggregate normalizedCode r))]))"

text \<open>
  \<open>lastFeedbackTime.get(socket.id) || 0\<close>: a missing entry reads as 0 (and so does a
  stored 0).
\<close>

definition or_zero :: "int option \<Rightarrow> int" where
  "or_zero v = (case v of None \<Rightarrow> 0 | Some t \<Rightarrow> t)"

definition throttled :: "socketId \<Rightarrow> int \<Rightarrow> server \<Rightarrow> bool" where
  "throttled sid now st =
     (now - or_zero (map_of (lastFeedbackTime st) sid) < THROTTLE_MS)"

definition on_feedback ::
  "(string \<Rightarrow> string) \<Rightarrow> socketId \<Rightarrow> int \<Rightarrow> string \<Rightarrow> feedbackLevel \<Rightarrow> server
     \<Rightarrow> server \<times> action list" where
  "on_feedback norm sid now code level st =
     (if throttled sid now st then (st, [])
      else let st1 = st\<lparr>lastFeedbackTime := AList.update sid now (lastFeedbackTime st)\<rparr>;
               normalizedCode = norm code;
               (updated, r) = updateFeedback normalizedCode sid level (reg st1)
           in if \<not> updated then (st1\<lparr>reg := r\<rparr>, [])
              else (st1\<lparr>reg := r\<rparr>,
                    [Broadcast normalizedCode
                       (AggregateUpdate (getAggregate normalizedCode r))]))"

definition on_endSession ::
  "(string \<Rightarrow> string) \<Rightarrow> string \<Rightarrow> server \<Rightarrow> server \<times> action list" where
  "on_endSession norm code st =
     (let normalizedCode = norm code
      in (st\<lparr>reg := snd (endSession normalizedCode (reg st))\<rparr>,
          [Broadcast normalizedCode SessionEnded]))"

definition on_disconnect :: "socketId \<Rightarrow> server \<Rightarrow> server \<times> action list" where
  "on_disconnect sid st =
     (let st1 = st\<lparr>lastFeedbackTime := AList.delete sid (lastFeedbackTime st)\<rparr>;
          (info, r) = removeSocket sid (reg st1);
          st2 = st1\<lparr>reg := r\<rparr>
      in case info of
           None \<Rightarrow> (st2, [])
         | Some (code, role) \<Rightarrow>
             if role = Student
             then (case getAggregate code r of
                     None \<Rightarrow> (st2, [])
                   | Some aggregate \<Rightarrow>
                       (st2, [Broadcast code (AggregateUpdate (Some aggregate))]))
             else (st2, []))"

subsection \<open>Sequences of events\<close>

datatype event =
    OnCreateSession "draw list"
  | OnJoinSession string
  | OnFeedback string feedbackLevel
  | OnEndSession string
  | OnDisconnect

text \<open>An arrival is the connection, the time and the event.\<close>

type_synonym arrival = "socketId \<times> int \<times> event"

fun handle ::
  "(string \<Rightarrow> string) \<Rightarrow> socketId \<Rightarrow> int \<Rightarrow> event \<Rightarrow> server \<Rightarrow> (server \<times> action list) option" where
  "handle norm sid now (OnCreateSession rs) st = on_createSession sid now rs st"
| "handle norm sid now (OnJoinSession code) st = Some (on_joinSession norm sid code st)"
| "handle norm sid now (OnFeedback code level) st = Some (on_feedback norm sid now code level st)"
| "handle norm sid now (OnEndSession code) st = Some (on_endSession norm code st)"
| "handle norm sid now OnDisconnect st = Some (on_disconnect sid st)"

fun is_feedback :: "event \<Rightarrow> bool" where
  "is_feedback (OnFeedback code level) = True"
| "is_feedback _ = False"

text \<open>
  The times of the feedback events of connection \<open>c\<close> that pass the rate limit (and so
  reach \<open>updateFeedback\<close>), in order of arrival.
\<close>

fun accepted :: "(string \<Rightarrow> string) \<Rightarrow> socketId \<Rightarrow> arrival list \<Rightarrow> server \<Rightarrow> int list" where
  "accepted norm c [] st = []"
| "accepted norm c ((sid, now, ev) # evs) st =
     (case handle norm sid now ev st of
        None \<Rightarrow> []
      | Some (st', out) \<Rightarrow>
          (if sid = c \<and> is_feedback ev \<and> \<not> throttled sid now st then [now] else [])
            @ accepted norm c evs st')"

text \<open>
  A connection identifier names one connection: the transport delivers \<open>disconnect\<close> as
  the connection's last event.
\<close>

fun ends_at_disconnect :: "socketId \<Rightarrow> arrival list \<Rightarrow> bool" where
  "ends_at_disconnect c [] = True"
| "ends_at_disconnect c ((sid, now, ev) # evs) =
     (if sid = c \<and> ev = OnDisconnect then list_all (\<lambda>(sid', now', ev'). sid' \<noteq> c) evs
      else ends_at_disconnect c evs)"

section \<open>A worked example\<close>

text \<open>
  One teacher \<open>T\<close> creates a session, the source of randomness gives the code
  \<open>AB23CD\<close>, and two students \<open>c1\<close> and \<open>c2\<close> join.
\<close>

definition example_ops :: "op list" where
  "example_ops =
     [CreateSession ''T'' 0 [0, 1, 24, 25, 2, 3],
      AddStudent ''AB23CD'' ''c1'',
      AddStudent ''AB23CD'' ''c2'']"

definition example_registry :: registry where
  "example_registry =
     \<lparr>sessions =
        [(''AB23CD'',
          \<lparr>teacherSocketId = ''T'',
           clients = [(''c1'', ''neutral''), (''c2'', ''neutral'')],
           createdAt = 0\<rparr>)],
      socketToSession =
        [(''T'', (''AB23CD'', Teacher)), (''c1'', (''AB23CD'', Student)),
         (''c2'', (''AB23CD'', Student))]\<rparr>"

definition example_server :: server where
  "example_server = \<lparr>reg = example_registry, lastFeedbackTime = []\<rparr>"

definition feedback_ops :: "op list" where
  "feedback_ops = example_ops @
     [UpdateFeedback ''AB23CD'' ''c1'' ''lost'', UpdateFeedback ''AB23CD'' ''c2'' ''great'']"

definition lecture_ops :: "op list" where
  "lecture_ops = feedback_ops @ [RemoveSocket ''c2'', RemoveSocket ''T'']"

definition lecture_registry :: registry where
  "lecture_registry =
     \<lparr>sessions =
        [(''AB23CD'',
          \<lparr>teacherSocketId = ''T'', clients = [(''c1'', ''lost'')], createdAt = 0\<rparr>)],
      socketToSession = [(''c1'', (''AB23CD'', Student))]\<rparr>"

definition feedback_arrivals :: "arrival list" where
  "feedback_arrivals =
     [(''c1'', 1000000, OnFeedback '' ab23cd '' ''confused''),
      (''c2'', 1000100, OnFeedback '' ab23cd '' ''gotit''),
      (''c1'', 1000300, OnFeedback '' ab23cd '' ''lost''),
      (''c1'', 1000500, OnFeedback '' ab23cd '' ''lost'')]"

definition after_first_feedback :: server where
  "after_first_feedback =
     \<lparr>reg = example_registry\<lparr>sessions :=
        [(''AB23CD'', \<lparr>teacherSocketId = ''T'',
            clients = [(''c1'', ''confused''), (''c2'', ''neutral'')], createdAt = 0\<rparr>)]\<rparr>,
      lastFeedbackTime = [(''c1'', 1000000)]\<rparr>"

section \<open>Properties of the registry operations\<close>

subsection \<open>Code generation\<close>

lemma unat_draw_less: "unat (r :: draw) < 32"
  using unsigned_less [of r] by simp

lemma length_chars: "length chars = 32"
  by (simp add: chars_def)

lemma distinct_chars: "distinct chars"
  by (simp add: chars_def)

lemma set_chars: "set chars = set ''ABCDEFGHIJKLMNOPQRSTUVWXYZ0123456789'' - set ''0O1I''"
  by (auto simp add: chars_def)

lemma generateCode_Some:
  "generateCode ss rs = Some code \<Longrightarrow>
     length code = 6 \<and> set code \<subseteq> set chars \<and> map_of ss code = None"
proof (induction ss rs rule: generateCode.induct)
  case (1 ss rs)
  show ?case
  proof (cases "length rs < 6")
    case True
    with "1.prems" show ?thesis by (simp add: generateCode.simps)
  next
    case long: False
    let ?c = "map (\<lambda>r. chars ! unat r) (take 6 rs)"
    show ?thesis
    proof (cases "map_of ss ?c = None")
      case True
      with long "1.prems" have "code = ?c"
        by (simp add: generateCode.simps [of ss rs])
      moreover have "set ?c \<subseteq> set chars"
        using unat_draw_less by (auto simp: length_chars)
      ultimately show ?thesis using True long by simp
    next
      case False
      with long "1.prems" have "generateCode ss (drop 6 rs) = Some code"
        by (simp add: generateCode.simps [of ss rs])
      with "1.IH" long False show ?thesis by simp
    qed
  qed
qed

lemma generateCode_fresh:
  "6 \<le> length rs \<Longrightarrow> map_of ss (map (\<lambda>r. chars ! unat r) (take 6 rs)) = None \<Longrightarrow>
     generateCode ss rs = Some (map (\<lambda>r. chars ! unat r) (take 6 rs))"
  by (simp add: generateCode.simps [of ss rs])

lemma map_of_fold_delete:
  "map_of (fold AList.delete ks al) k = (if k \<in> set ks then None else map_of al k)"
  by (induction ks arbitrary: al) (auto simp: delete_conv')

lemma keys_update_present:
  "map_of al k \<noteq> None \<Longrightarrow> map fst (AList.update k v al) = map fst al"
  by (simp add: update_keys map_of_eq_None_iff)

lemma map_of_increment:
  "map_of (increment a cs) l =
     (if l = a
      then (case map_of cs a of Some (Num n) \<Rightarrow> Some (Num (n + 1)) | _ \<Rightarrow> Some NaN)
      else map_of cs l)"
  by (simp add: increment_def update_conv' split: option.splits jsnum.splits)

lemma map_of_fold_increment:
  "map_of (fold increment ls cs) l =
     (case map_of cs l of
        Some (Num n) \<Rightarrow> Some (Num (n + count_list ls l))
      | Some NaN \<Rightarrow> Some NaN
      | None \<Rightarrow> if l \<in> set ls then Some NaN else None)"
proof (induction ls arbitrary: cs)
  case Nil
  show ?case by (simp split: option.splits jsnum.splits)
next
  case (Cons a ls)
  have "map_of (fold increment (a # ls) cs) l = map_of (fold increment ls (increment a cs)) l"
    by simp
  also have "\<dots> = (case map_of (increment a cs) l of
        Some (Num n) \<Rightarrow> Some (Num (n + count_list ls l))
      | Some NaN \<Rightarrow> Some NaN
      | None \<Rightarrow> if l \<in> set ls then Some NaN else None)"
    by (rule Cons.IH)
  also have "\<dots> = (case map_of cs l of
        Some (Num n) \<Rightarrow> Some (Num (n + count_list (a # ls) l))
      | Some NaN \<Rightarrow> Some NaN
      | None \<Rightarrow> if l \<in> set (a # ls) then Some NaN else None)"
    by (simp add: map_of_increment split: option.splits jsnum.splits)
  finally show ?case .
qed

lemma count_list_snd:
  "count_list (map snd al) l = length (filter (\<lambda>(c, lv). lv = l) al)"
  by (induction al) auto

subsection \<open>Single operations\<close>

lemma endSession_missing:
  "map_of (sessions s) code = None \<Longrightarrow> endSession code s = (False, s)"
  by (simp add: endSession_def)

lemma endSession_present:
  assumes "map_of (sessions s) code = Some sess"
  shows "fst (endSession code s)"
    and "map_of (sessions (snd (endSession code s))) code = None"
    and "code' \<noteq> code \<Longrightarrow>
           map_of (sessions (snd (endSession code s))) code' = map_of (sessions s) code'"
    and "map_of (socketToSession (snd (endSession code s))) sid =
           (if sid = teacherSocketId sess \<or> sid \<in> fst ` set (clients sess) then None
            else map_of (socketToSession s) sid)"
  using assms by (auto simp: endSession_def delete_conv' map_of_fold_delete)

lemma addStudent_exists:
  "sessionExists code s \<Longrightarrow> fst (addStudent code sid s)"
  by (auto simp: sessionExists_def addStudent_def split: option.splits)

lemma on_joinSession_not_second_error:
  "Emit sid' (JoinError ''Could not join session.'') \<notin> set (snd (on_joinSession norm sid code st))"
  by (auto simp: on_joinSession_def Let_def sessionExists_def addStudent_def split: option.splits prod.splits)

lemma getAggregate_None: "(getAggregate code s = None) = (map_of (sessions s) code = None)"
  by (simp add: getAggregate_def split: option.splits)

subsection \<open>Association lists\<close>

lemma list_all_update:
  "list_all P al \<Longrightarrow> P (k, v) \<Longrightarrow> list_all P (AList.update k v al)"
  by (induction al) auto

lemma list_all_delete:
  "list_all P al \<Longrightarrow> list_all P (AList.delete k al)"
  by (simp add: AList.delete_eq list_all_iff)

lemma list_all_lookup:
  "list_all P al \<Longrightarrow> map_of al k = Some v \<Longrightarrow> P (k, v)"
  by (auto simp: list_all_iff dest: map_of_SomeD)

lemma distinct_fold_delete:
  "distinct (map fst al) \<Longrightarrow> distinct (map fst (fold AList.delete ks al))"
  by (induction ks arbitrary: al) (auto simp: distinct_delete)

lemma reverse_index_sound_iff:
  "reverse_index_sound s =
     (\<forall>sid info. map_of (socketToSession s) sid = Some info \<longrightarrow> entry_matches s sid info)"
proof
  assume a: "reverse_index_sound s"
  show "\<forall>sid info. map_of (socketToSession s) sid = Some info \<longrightarrow> entry_matches s sid info"
  proof (intro allI impI)
    fix sid info
    assume m: "map_of (socketToSession s) sid = Some info"
    then have "sid \<in> set (map fst (socketToSession s))"
      by (auto dest: map_of_SomeD intro: rev_image_eqI)
    with a m show "entry_matches s sid info"
      by (auto simp: reverse_index_sound_def list_all_iff)
  qed
next
  assume "\<forall>sid info. map_of (socketToSession s) sid = Some info \<longrightarrow> entry_matches s sid info"
  then show "reverse_index_sound s"
    by (auto simp: reverse_index_sound_def list_all_iff split: option.splits)
qed

lemma reverse_index_soundD:
  "reverse_index_sound s \<Longrightarrow> map_of (socketToSession s) sid = Some info \<Longrightarrow>
     entry_matches s sid info"
  unfolding reverse_index_sound_iff by blast

subsection \<open>The reverse index matches the forward map\<close>

lemma createSession_sound:
  assumes "reverse_index_sound s" and "createSession teacher now rs s = Some (code, s')"
  shows "reverse_index_sound s'"
proof -
  from assms(2) obtain fresh: "map_of (sessions s) code = None"
    and s': "s' = s\<lparr>sessions := AList.update code
                  \<lparr>teacherSocketId = teacher, clients = [], createdAt = now\<rparr> (sessions s),
              socketToSession := AList.update teacher (code, Teacher) (socketToSession s)\<rparr>"
    by (auto simp: createSession_def split: option.splits dest: generateCode_Some)
  show ?thesis
    unfolding reverse_index_sound_iff
  proof (intro allI impI)
    fix sid info
    assume m: "map_of (socketToSession s') sid = Some info"
    show "entry_matches s' sid info"
    proof (cases "sid = teacher")
      case True
      with m s' show ?thesis by (auto simp: entry_matches_def update_conv')
    next
      case False
      with m s' have "map_of (socketToSession s) sid = Some info" by (simp add: update_conv')
      with assms(1) have e: "entry_matches s sid info" by (blast dest: reverse_index_soundD)
      with fresh have "fst info \<noteq> code" by (auto simp: entry_matches_def)
      with e s' show ?thesis by (simp add: entry_matches_def update_conv')
    qed
  qed
qed

lemma addStudent_sound:
  assumes "reverse_index_sound s"
  shows "reverse_index_sound (snd (addStudent code sid s))"
proof (cases "map_of (sessions s) code")
  case None
  with assms show ?thesis by (simp add: addStudent_def)
next
  case (Some sess)
  let ?s' = "snd (addStudent code sid s)"
  show ?thesis
    unfolding reverse_index_sound_iff
  proof (intro allI impI)
    fix x info
    assume m: "map_of (socketToSession ?s') x = Some info"
    show "entry_matches ?s' x info"
    proof (cases "x = sid")
      case True
      with m Some show ?thesis by (auto simp: addStudent_def entry_matches_def update_conv')
    next
      case False
      with m Some have "map_of (socketToSession s) x = Some info"
        by (simp add: addStudent_def update_conv')
      with assms have "entry_matches s x info" by (blast dest: reverse_index_soundD)
      with Some False show ?thesis
        by (auto simp: addStudent_def entry_matches_def update_conv' split: option.splits role.splits)
    qed
  qed
qed

lemma updateFeedback_sound:
  assumes "reverse_index_sound s"
  shows "reverse_index_sound (snd (updateFeedback code sid level s))"
  unfolding reverse_index_sound_iff
proof (intro allI impI)
  fix x info
  assume "map_of (socketToSession (snd (updateFeedback code sid level s))) x = Some info"
  then have "map_of (socketToSession s) x = Some info"
    by (auto simp: updateFeedback_def split: option.splits if_splits)
  with assms have "entry_matches s x info" by (blast dest: reverse_index_soundD)
  then show "entry_matches (snd (updateFeedback code sid level s)) x info"
    by (auto simp: updateFeedback_def entry_matches_def update_conv' split: option.splits role.splits)
qed

lemma removeSocket_sound:
  assumes "reverse_index_sound s"
  shows "reverse_index_sound (snd (removeSocket sid s))"
  unfolding reverse_index_sound_iff
proof (intro allI impI)
  fix x info
  assume m: "map_of (socketToSession (snd (removeSocket sid s))) x = Some info"
  then have ne: "x \<noteq> sid"
    by (auto simp: removeSocket_def Let_def delete_conv' split: option.splits prod.splits if_splits)
  with m have "map_of (socketToSession s) x = Some info"
    by (auto simp: removeSocket_def Let_def delete_conv' split: option.splits prod.splits if_splits)
  with assms have "entry_matches s x info" by (blast dest: reverse_index_soundD)
  with ne show "entry_matches (snd (removeSocket sid s)) x info"
    by (auto simp: removeSocket_def Let_def entry_matches_def update_conv' delete_conv'
        split: option.splits role.splits prod.splits)
qed

lemma endSession_sound:
  assumes "reverse_index_sound s"
  shows "reverse_index_sound (snd (endSession code s))"
proof (cases "map_of (sessions s) code")
  case None
  with assms show ?thesis by (simp add: endSession_def)
next
  case (Some sess)
  let ?s' = "snd (endSession code s)"
  show ?thesis
    unfolding reverse_index_sound_iff
  proof (intro allI impI)
    fix x info
    assume m: "map_of (socketToSession ?s') x = Some info"
    with Some have x: "x \<noteq> teacherSocketId sess" "x \<notin> fst ` set (clients sess)"
      and old: "map_of (socketToSession s) x = Some info"
      by (auto simp: endSession_def delete_conv' map_of_fold_delete split: if_splits)
    from old assms have e: "entry_matches s x info" by (blast dest: reverse_index_soundD)
    have "fst info \<noteq> code"
    proof (cases "snd info")
      case Teacher
      with e Some x show ?thesis by (auto simp: entry_matches_def)
    next
      case Student
      with e Some x show ?thesis by (auto simp: entry_matches_def map_of_eq_None_iff)
    qed
    with e Some show "entry_matches ?s' x info"
      by (simp add: endSession_def entry_matches_def delete_conv')
  qed
qed

lemma apply_op_sound:
  "reverse_index_sound s \<Longrightarrow> apply_op x s = Some s' \<Longrightarrow> reverse_index_sound s'"
  by (cases x)
    (auto simp: addStudent_sound updateFeedback_sound removeSocket_sound endSession_sound
      dest: createSession_sound)

lemma run_sound:
  "reverse_index_sound s \<Longrightarrow> run xs s = Some s' \<Longrightarrow> reverse_index_sound s'"
  by (induction xs arbitrary: s) (auto split: option.splits dest: apply_op_sound)

lemma empty_sound: "reverse_index_sound empty_registry"
  by (simp add: reverse_index_sound_def empty_registry_def)

subsection \<open>Stored levels are valid\<close>

lemma neutral_valid: "''neutral'' \<in> set FEEDBACK_LEVELS"
  by (simp add: FEEDBACK_LEVELS_def)

lemma apply_op_levels_valid:
  assumes "levels_valid s" and "apply_op x s = Some s'"
  shows "levels_valid s'"
proof (cases x)
  case (CreateSession teacher now rs)
  with assms show ?thesis
    by (auto simp: levels_valid_def createSession_def split: option.splits
        intro!: list_all_update)
next
  case (AddStudent code sid)
  show ?thesis
  proof (cases "map_of (sessions s) code")
    case None
    with assms AddStudent show ?thesis by (auto simp: addStudent_def)
  next
    case (Some sess)
    with assms(1) have "list_all (\<lambda>(sid, level). level \<in> set FEEDBACK_LEVELS) (clients sess)"
      unfolding levels_valid_def by (auto dest: list_all_lookup)
    then have "list_all (\<lambda>(sid, level). level \<in> set FEEDBACK_LEVELS)
        (AList.update sid ''neutral'' (clients sess))"
      by (rule list_all_update) (simp add: neutral_valid)
    with assms AddStudent Some show ?thesis
      by (auto simp: levels_valid_def addStudent_def intro!: list_all_update)
  qed
next
  case (UpdateFeedback code sid level)
  show ?thesis
  proof (cases "fst (updateFeedback code sid level s)")
    case False
    then have "snd (updateFeedback code sid level s) = s"
      by (auto simp: updateFeedback_def split: option.splits if_splits)
    with assms UpdateFeedback show ?thesis by simp
  next
    case True
    then obtain sess where lv: "level \<in> set FEEDBACK_LEVELS"
      and Some: "map_of (sessions s) code = Some sess"
      and s': "s' = s\<lparr>sessions := AList.update code
                 (sess\<lparr>clients := AList.update sid level (clients sess)\<rparr>) (sessions s)\<rparr>"
      using assms(2) UpdateFeedback
      by (auto simp: updateFeedback_def split: option.splits if_splits)
    from Some assms(1) have "list_all (\<lambda>(sid, level). level \<in> set FEEDBACK_LEVELS) (clients sess)"
      unfolding levels_valid_def by (auto dest: list_all_lookup)
    then have "list_all (\<lambda>(sid, level). level \<in> set FEEDBACK_LEVELS)
        (AList.update sid level (clients sess))"
      by (rule list_all_update) (simp add: lv)
    with assms(1) s' show ?thesis
      by (auto simp: levels_valid_def intro!: list_all_update)
  qed
next
  case (RemoveSocket sid)
  show ?thesis
  proof (cases "map_of (socketToSession s) sid")
    case None
    with assms RemoveSocket show ?thesis by (simp add: removeSocket_def)
  next
    case (Some info)
    obtain code role where info: "info = (code, role)" by (cases info)
    show ?thesis
    proof (cases "map_of (sessions s) code")
      case None
      with assms RemoveSocket Some info show ?thesis
        by (auto simp: removeSocket_def levels_valid_def)
    next
      case sess: (Some sess)
      with assms(1) have "list_all (\<lambda>(sid, level). level \<in> set FEEDBACK_LEVELS) (clients sess)"
        unfolding levels_valid_def by (auto dest: list_all_lookup)
      then have "list_all (\<lambda>(sid, level). level \<in> set FEEDBACK_LEVELS)
          (AList.delete sid (clients sess))"
        by (rule list_all_delete)
      with assms RemoveSocket Some info sess show ?thesis
        by (auto simp: removeSocket_def levels_valid_def intro!: list_all_update)
    qed
  qed
next
  case (EndSession code)
  with assms show ?thesis
    by (auto simp: endSession_def levels_valid_def split: option.splits intro!: list_all_delete)
qed

lemma run_levels_valid:
  "levels_valid s \<Longrightarrow> run xs s = Some s' \<Longrightarrow> levels_valid s'"
  by (induction xs arbitrary: s) (auto split: option.splits dest: apply_op_levels_valid)

lemma empty_levels_valid: "levels_valid empty_registry"
  by (simp add: levels_valid_def empty_registry_def)

subsection \<open>Keys stay distinct\<close>

lemma distinct_keys_clients:
  "distinct_keys s \<Longrightarrow> map_of (sessions s) code = Some sess \<Longrightarrow> distinct (map fst (clients sess))"
  unfolding distinct_keys_def by (auto dest: list_all_lookup)

lemma apply_op_distinct_keys:
  assumes "distinct_keys s" and "apply_op x s = Some s'"
  shows "distinct_keys s'"
proof (cases x)
  case (CreateSession teacher now rs)
  with assms show ?thesis
    by (auto simp: distinct_keys_def createSession_def distinct_update split: option.splits
        intro!: list_all_update)
next
  case (AddStudent code sid)
  show ?thesis
  proof (cases "map_of (sessions s) code")
    case None
    with assms AddStudent show ?thesis by (auto simp: addStudent_def)
  next
    case (Some sess)
    with assms(1) have "distinct (map fst (clients sess))" by (rule distinct_keys_clients)
    then have "distinct (map fst (AList.update sid ''neutral'' (clients sess)))"
      by (rule distinct_update)
    with assms AddStudent Some show ?thesis
      by (auto simp: distinct_keys_def addStudent_def distinct_update intro!: list_all_update)
  qed
next
  case (UpdateFeedback code sid level)
  show ?thesis
  proof (cases "fst (updateFeedback code sid level s)")
    case False
    then have "snd (updateFeedback code sid level s) = s"
      by (auto simp: updateFeedback_def split: option.splits if_splits)
    with assms UpdateFeedback show ?thesis by simp
  next
    case True
    then obtain sess where Some: "map_of (sessions s) code = Some sess"
      and s': "s' = s\<lparr>sessions := AList.update code
                 (sess\<lparr>clients := AList.update sid level (clients sess)\<rparr>) (sessions s)\<rparr>"
      using assms(2) UpdateFeedback
      by (auto simp: updateFeedback_def split: option.splits if_splits)
    from assms(1) Some have "distinct (map fst (clients sess))" by (rule distinct_keys_clients)
    then have "distinct (map fst (AList.update sid level (clients sess)))"
      by (rule distinct_update)
    with assms(1) s' show ?thesis
      by (auto simp: distinct_keys_def distinct_update intro!: list_all_update)
  qed
next
  case (RemoveSocket sid)
  show ?thesis
  proof (cases "map_of (socketToSession s) sid")
    case None
    with assms RemoveSocket show ?thesis by (simp add: removeSocket_def)
  next
    case (Some info)
    obtain code role where info: "info = (code, role)" by (cases info)
    show ?thesis
    proof (cases "map_of (sessions s) code")
      case None
      with assms RemoveSocket Some info show ?thesis
        by (auto simp: removeSocket_def distinct_keys_def distinct_delete)
    next
      case sess: (Some sess)
      with assms(1) have "distinct (map fst (clients sess))" by (rule distinct_keys_clients)
      then have "distinct (map fst (AList.delete sid (clients sess)))"
        by (rule distinct_delete)
      with assms RemoveSocket Some info sess show ?thesis
        by (auto simp: removeSocket_def distinct_keys_def distinct_update distinct_delete
            intro!: list_all_update)
    qed
  qed
next
  case (EndSession code)
  with assms show ?thesis
    by (auto simp: endSession_def distinct_keys_def distinct_delete distinct_fold_delete
        split: option.splits intro!: list_all_delete)
qed

lemma run_distinct_keys:
  "distinct_keys s \<Longrightarrow> run xs s = Some s' \<Longrightarrow> distinct_keys s'"
  by (induction xs arbitrary: s) (auto split: option.splits dest: apply_op_distinct_keys)

lemma empty_distinct_keys: "distinct_keys empty_registry"
  by (simp add: distinct_keys_def empty_registry_def)

subsection \<open>The owner and the participant map\<close>

lemma owner_lookup:
  "owner_not_participant s \<Longrightarrow> map_of (sessions s) code = Some sess \<Longrightarrow>
     map_of (clients sess) (teacherSocketId sess) = None"
  unfolding owner_not_participant_def by (auto dest: list_all_lookup)

lemma apply_op_owner:
  assumes "owner_not_participant s" and "\<not> self_join x s" and "apply_op x s = Some s'"
  shows "owner_not_participant s'"
proof (cases x)
  case (CreateSession teacher now rs)
  with assms show ?thesis
    by (auto simp: owner_not_participant_def createSession_def split: option.splits
        intro!: list_all_update)
next
  case (AddStudent code sid)
  show ?thesis
  proof (cases "map_of (sessions s) code")
    case None
    with assms AddStudent show ?thesis by (auto simp: addStudent_def)
  next
    case (Some sess)
    with assms(1) have "map_of (clients sess) (teacherSocketId sess) = None"
      by (rule owner_lookup)
    moreover from assms(2) AddStudent Some have "teacherSocketId sess \<noteq> sid" by simp
    ultimately have "map_of (AList.update sid ''neutral'' (clients sess)) (teacherSocketId sess) = None"
      by (simp add: update_conv')
    with assms AddStudent Some show ?thesis
      by (auto simp: owner_not_participant_def addStudent_def intro!: list_all_update)
  qed
next
  case (UpdateFeedback code sid level)
  show ?thesis
  proof (cases "fst (updateFeedback code sid level s)")
    case False
    then have "snd (updateFeedback code sid level s) = s"
      by (auto simp: updateFeedback_def split: option.splits if_splits)
    with assms UpdateFeedback show ?thesis by simp
  next
    case True
    then obtain sess where Some: "map_of (sessions s) code = Some sess"
      and mem: "map_of (clients sess) sid \<noteq> None"
      and s': "s' = s\<lparr>sessions := AList.update code
                 (sess\<lparr>clients := AList.update sid level (clients sess)\<rparr>) (sessions s)\<rparr>"
      using assms(3) UpdateFeedback
      by (auto simp: updateFeedback_def split: option.splits if_splits)
    from assms(1) Some have o: "map_of (clients sess) (teacherSocketId sess) = None"
      by (rule owner_lookup)
    with mem have "teacherSocketId sess \<noteq> sid" by auto
    with o have "map_of (AList.update sid level (clients sess)) (teacherSocketId sess) = None"
      by (simp add: update_conv')
    with assms(1) s' show ?thesis
      by (auto simp: owner_not_participant_def intro!: list_all_update)
  qed
next
  case (RemoveSocket sid)
  show ?thesis
  proof (cases "map_of (socketToSession s) sid")
    case None
    with assms RemoveSocket show ?thesis by (simp add: removeSocket_def)
  next
    case (Some info)
    obtain code role where info: "info = (code, role)" by (cases info)
    show ?thesis
    proof (cases "map_of (sessions s) code")
      case None
      with assms RemoveSocket Some info show ?thesis
        by (auto simp: removeSocket_def owner_not_participant_def)
    next
      case sess: (Some sess)
      with assms(1) have "map_of (clients sess) (teacherSocketId sess) = None"
        by (rule owner_lookup)
      then have "map_of (AList.delete sid (clients sess)) (teacherSocketId sess) = None"
        by (simp add: delete_conv')
      with assms RemoveSocket Some info sess show ?thesis
        by (auto simp: removeSocket_def owner_not_participant_def intro!: list_all_update)
    qed
  qed
next
  case (EndSession code)
  with assms show ?thesis
    by (auto simp: endSession_def owner_not_participant_def split: option.splits
        intro!: list_all_delete)
qed

lemma run_owner:
  "owner_not_participant s \<Longrightarrow> no_self_join xs s \<Longrightarrow> run xs s = Some s' \<Longrightarrow>
     owner_not_participant s'"
  by (induction xs arbitrary: s) (auto split: option.splits dest: apply_op_owner)

lemma empty_owner: "owner_not_participant empty_registry"
  by (simp add: owner_not_participant_def empty_registry_def)

subsection \<open>The worked example\<close>

lemma generateCode_example: "generateCode [] [0, 1, 24, 25, 2, 3] = Some ''AB23CD''"
  by (simp add: generateCode.simps chars_def)

lemma run_example_ops: "run example_ops empty_registry = Some example_registry"
  by (simp add: example_ops_def example_registry_def empty_registry_def createSession_def
      generateCode_example addStudent_def)

lemma normalize_example: "normalize_ascii '' ab23cd '' = ''AB23CD''"
  by (simp add: normalize_ascii_def trim_ascii_def toUpperCase_ascii_def whitespace_ascii_def)

section \<open>Properties of the specification\<close>

text \<open>
  Claim C3. \<open>updateFeedback\<close> returns false exactly when the level is not one of the four
  feedback levels, or the session does not exist, or the connection is not a key of the
  session's participant map. On false the registry is unchanged, and so is every aggregate.
  On true the reverse index, the session keys, every other session, the session's teacher
  and creation time and the order of its participants are unchanged, the connection's level
  is the given one, and every other participant keeps its level.
\<close>

theorem updateFeedback_spec:
  "((\<not> fst (updateFeedback code sid level s)) =
      (level \<notin> set FEEDBACK_LEVELS \<or> map_of (sessions s) code = None \<or>
       (\<exists>sess. map_of (sessions s) code = Some sess \<and> map_of (clients sess) sid = None))) \<and>
   (\<not> fst (updateFeedback code sid level s) \<longrightarrow>
      snd (updateFeedback code sid level s) = s \<and>
      (\<forall>code'. getAggregate code' (snd (updateFeedback code sid level s)) = getAggregate code' s)) \<and>
   (fst (updateFeedback code sid level s) \<longrightarrow>
      socketToSession (snd (updateFeedback code sid level s)) = socketToSession s \<and>
      map fst (sessions (snd (updateFeedback code sid level s))) = map fst (sessions s) \<and>
      (\<forall>code'. code' \<noteq> code \<longrightarrow>
         map_of (sessions (snd (updateFeedback code sid level s))) code' =
         map_of (sessions s) code') \<and>
      (\<exists>sess sess'.
         map_of (sessions s) code = Some sess \<and>
         map_of (sessions (snd (updateFeedback code sid level s))) code = Some sess' \<and>
         teacherSocketId sess' = teacherSocketId sess \<and> createdAt sess' = createdAt sess \<and>
         map fst (clients sess') = map fst (clients sess) \<and>
         map_of (clients sess') sid = Some level \<and>
         (\<forall>sid'. sid' \<noteq> sid \<longrightarrow> map_of (clients sess') sid' = map_of (clients sess) sid')))"
proof (intro conjI impI)
  show "(\<not> fst (updateFeedback code sid level s)) =
      (level \<notin> set FEEDBACK_LEVELS \<or> map_of (sessions s) code = None \<or>
       (\<exists>sess. map_of (sessions s) code = Some sess \<and> map_of (clients sess) sid = None))"
    by (auto simp: updateFeedback_def split: option.splits)
next
  assume "\<not> fst (updateFeedback code sid level s)"
  then show "snd (updateFeedback code sid level s) = s"
    by (auto simp: updateFeedback_def split: option.splits if_splits)
  then show "\<forall>code'. getAggregate code' (snd (updateFeedback code sid level s)) = getAggregate code' s"
    by simp
next
  assume t: "fst (updateFeedback code sid level s)"
  then obtain sess where Some: "map_of (sessions s) code = Some sess"
    and mem: "map_of (clients sess) sid \<noteq> None"
    and s': "snd (updateFeedback code sid level s) = s\<lparr>sessions := AList.update code
               (sess\<lparr>clients := AList.update sid level (clients sess)\<rparr>) (sessions s)\<rparr>"
    by (auto simp: updateFeedback_def split: option.splits if_splits)
  show "socketToSession (snd (updateFeedback code sid level s)) = socketToSession s"
    by (simp add: s')
  show "map fst (sessions (snd (updateFeedback code sid level s))) = map fst (sessions s)"
    using Some by (simp add: s' keys_update_present)
  show "\<forall>code'. code' \<noteq> code \<longrightarrow>
         map_of (sessions (snd (updateFeedback code sid level s))) code' =
         map_of (sessions s) code'"
    by (simp add: s' update_conv')
  show "\<exists>sess sess'.
         map_of (sessions s) code = Some sess \<and>
         map_of (sessions (snd (updateFeedback code sid level s))) code = Some sess' \<and>
         teacherSocketId sess' = teacherSocketId sess \<and> createdAt sess' = createdAt sess \<and>
         map fst (clients sess') = map fst (clients sess) \<and>
         map_of (clients sess') sid = Some level \<and>
         (\<forall>sid'. sid' \<noteq> sid \<longrightarrow> map_of (clients sess') sid' = map_of (clients sess) sid')"
    using Some mem by (simp add: s' update_conv' keys_update_present)
qed


theorem updateFeedback_spec_witness:
  "fst (updateFeedback ''AB23CD'' ''c1'' ''lost'' example_registry) \<and>
   map_of (clients (the (map_of
     (sessions (snd (updateFeedback ''AB23CD'' ''c1'' ''lost'' example_registry))) ''AB23CD'')))
     ''c1'' = Some ''lost'' \<and>
   \<not> fst (updateFeedback ''AB23CD'' ''c1'' ''great'' example_registry) \<and>
   snd (updateFeedback ''AB23CD'' ''c1'' ''great'' example_registry) = example_registry \<and>
   \<not> fst (updateFeedback ''AB23CD'' ''T'' ''lost'' example_registry) \<and>
   snd (updateFeedback ''AB23CD'' ''T'' ''lost'' example_registry) = example_registry"
proof -
  have ok: "fst (updateFeedback ''AB23CD'' ''c1'' ''lost'' example_registry)"
    by (simp add: updateFeedback_def example_registry_def FEEDBACK_LEVELS_def)
  have bad_level: "\<not> fst (updateFeedback ''AB23CD'' ''c1'' ''great'' example_registry)"
    by (simp add: updateFeedback_def example_registry_def FEEDBACK_LEVELS_def)
  have bad_conn: "\<not> fst (updateFeedback ''AB23CD'' ''T'' ''lost'' example_registry)"
    by (simp add: updateFeedback_def example_registry_def FEEDBACK_LEVELS_def)
  from ok updateFeedback_spec [of "''AB23CD''" "''c1''" "''lost''" example_registry]
  obtain sess' where
    "map_of (sessions (snd (updateFeedback ''AB23CD'' ''c1'' ''lost'' example_registry))) ''AB23CD''
       = Some sess'"
    and "map_of (clients sess') ''c1'' = Some ''lost''"
    by blast
  then have new: "map_of (clients (the (map_of
     (sessions (snd (updateFeedback ''AB23CD'' ''c1'' ''lost'' example_registry))) ''AB23CD'')))
     ''c1'' = Some ''lost''"
    by simp
  from bad_level updateFeedback_spec [of "''AB23CD''" "''c1''" "''great''" example_registry]
  have same1: "snd (updateFeedback ''AB23CD'' ''c1'' ''great'' example_registry) = example_registry"
    by blast
  from bad_conn updateFeedback_spec [of "''AB23CD''" "''T''" "''lost''" example_registry]
  have same2: "snd (updateFeedback ''AB23CD'' ''T'' ''lost'' example_registry) = example_registry"
    by blast
  from ok new bad_level same1 bad_conn same2 show ?thesis by blast
qed

text \<open>
  Claim C8. \<open>endSession\<close> on a code with no session returns false and leaves the registry
  as it is. On an existing session it returns true, the session is gone, every other session
  is as before, the reverse index has no entry for the owner nor for any participant of the
  session, every other reverse-index entry is as before, and a second call at once returns
  false and changes nothing.
\<close>

theorem endSession_spec:
  "(map_of (sessions s) code = None \<longrightarrow> endSession code s = (False, s)) \<and>
   (\<forall>sess. map_of (sessions s) code = Some sess \<longrightarrow>
      fst (endSession code s) \<and>
      map_of (sessions (snd (endSession code s))) code = None \<and>
      (\<forall>code'. code' \<noteq> code \<longrightarrow>
         map_of (sessions (snd (endSession code s))) code' = map_of (sessions s) code') \<and>
      map_of (socketToSession (snd (endSession code s))) (teacherSocketId sess) = None \<and>
      (\<forall>sid \<in> fst ` set (clients sess).
         map_of (socketToSession (snd (endSession code s))) sid = None) \<and>
      (\<forall>sid. sid \<noteq> teacherSocketId sess \<and> sid \<notin> fst ` set (clients sess) \<longrightarrow>
         map_of (socketToSession (snd (endSession code s))) sid = map_of (socketToSession s) sid) \<and>
      endSession code (snd (endSession code s)) = (False, snd (endSession code s)))"
proof (rule conjI)
  show "map_of (sessions s) code = None \<longrightarrow> endSession code s = (False, s)"
    by (simp add: endSession_missing)
next
  show "\<forall>sess. map_of (sessions s) code = Some sess \<longrightarrow>
      fst (endSession code s) \<and>
      map_of (sessions (snd (endSession code s))) code = None \<and>
      (\<forall>code'. code' \<noteq> code \<longrightarrow>
         map_of (sessions (snd (endSession code s))) code' = map_of (sessions s) code') \<and>
      map_of (socketToSession (snd (endSession code s))) (teacherSocketId sess) = None \<and>
      (\<forall>sid \<in> fst ` set (clients sess).
         map_of (socketToSession (snd (endSession code s))) sid = None) \<and>
      (\<forall>sid. sid \<noteq> teacherSocketId sess \<and> sid \<notin> fst ` set (clients sess) \<longrightarrow>
         map_of (socketToSession (snd (endSession code s))) sid = map_of (socketToSession s) sid) \<and>
      endSession code (snd (endSession code s)) = (False, snd (endSession code s))"
  proof (intro allI impI)
    fix sess
    assume Some: "map_of (sessions s) code = Some sess"
    note p = endSession_present [OF Some]
    have again: "endSession code (snd (endSession code s)) = (False, snd (endSession code s))"
      using p(2) by (rule endSession_missing)
    show "fst (endSession code s) \<and>
      map_of (sessions (snd (endSession code s))) code = None \<and>
      (\<forall>code'. code' \<noteq> code \<longrightarrow>
         map_of (sessions (snd (endSession code s))) code' = map_of (sessions s) code') \<and>
      map_of (socketToSession (snd (endSession code s))) (teacherSocketId sess) = None \<and>
      (\<forall>sid \<in> fst ` set (clients sess).
         map_of (socketToSession (snd (endSession code s))) sid = None) \<and>
      (\<forall>sid. sid \<noteq> teacherSocketId sess \<and> sid \<notin> fst ` set (clients sess) \<longrightarrow>
         map_of (socketToSession (snd (endSession code s))) sid = map_of (socketToSession s) sid) \<and>
      endSession code (snd (endSession code s)) = (False, snd (endSession code s))"
      by (simp add: p again)
  qed
qed

theorem endSession_spec_witness:
  "fst (endSession ''AB23CD'' example_registry) \<and>
   map_of (sessions (snd (endSession ''AB23CD'' example_registry))) ''AB23CD'' = None \<and>
   map_of (socketToSession (snd (endSession ''AB23CD'' example_registry))) ''T'' = None \<and>
   map_of (socketToSession (snd (endSession ''AB23CD'' example_registry))) ''c2'' = None \<and>
   endSession ''AB23CD'' (snd (endSession ''AB23CD'' example_registry)) =
     (False, snd (endSession ''AB23CD'' example_registry)) \<and>
   endSession ''ZZZZZZ'' example_registry = (False, example_registry)"
proof -
  let ?sess = "\<lparr>teacherSocketId = ''T'',
                clients = [(''c1'', ''neutral''), (''c2'', ''neutral'')], createdAt = 0\<rparr>"
  have present: "map_of (sessions example_registry) ''AB23CD'' = Some ?sess"
    by (simp add: example_registry_def)
  have missing: "map_of (sessions example_registry) ''ZZZZZZ'' = None"
    by (simp add: example_registry_def)
  note a = endSession_spec [of example_registry "''AB23CD''", THEN conjunct2, rule_format, OF present]
  note b = endSession_spec [of example_registry "''ZZZZZZ''", THEN conjunct1, rule_format, OF missing]
  from a b show ?thesis by simp
qed

text \<open>
  Claim C9. Whenever \<open>sessionExists\<close> holds of a code, \<open>addStudent\<close> on that code returns
  true. So the join handler either reports an invalid code and leaves the state as it is, or
  adds the student and sends the room join, the confirmation and the aggregate; it never
  emits the second join error (\<open>Could not join session.\<close>), whatever the normalisation of
  the code.
\<close>

theorem join_second_error_unreachable:
  "(sessionExists code s \<longrightarrow> fst (addStudent code sid s)) \<and>
   (\<not> sessionExists (norm code') (reg st) \<longrightarrow>
      on_joinSession norm sid code' st = (st, [Emit sid (JoinError ''Invalid session code.'')])) \<and>
   (sessionExists (norm code') (reg st) \<longrightarrow>
      on_joinSession norm sid code' st =
        (st\<lparr>reg := snd (addStudent (norm code') sid (reg st))\<rparr>,
         [JoinRoom sid (norm code'),
          Emit sid (JoinedSession (norm code')),
          Broadcast (norm code')
            (AggregateUpdate (getAggregate (norm code') (snd (addStudent (norm code') sid (reg st)))))])) \<and>
   Emit sid' (JoinError ''Could not join session.'') \<notin> set (snd (on_joinSession norm sid code' st))"
proof (intro conjI impI)
  assume "sessionExists code s"
  then show "fst (addStudent code sid s)" by (rule addStudent_exists)
next
  assume "\<not> sessionExists (norm code') (reg st)"
  then show "on_joinSession norm sid code' st = (st, [Emit sid (JoinError ''Invalid session code.'')])"
    by (simp add: on_joinSession_def)
next
  assume e: "sessionExists (norm code') (reg st)"
  then have "fst (addStudent (norm code') sid (reg st))" by (rule addStudent_exists)
  with e show "on_joinSession norm sid code' st =
        (st\<lparr>reg := snd (addStudent (norm code') sid (reg st))\<rparr>,
         [JoinRoom sid (norm code'),
          Emit sid (JoinedSession (norm code')),
          Broadcast (norm code')
            (AggregateUpdate (getAggregate (norm code') (snd (addStudent (norm code') sid (reg st)))))])"
    by (simp add: on_joinSession_def Let_def case_prod_beta)
next
  show "Emit sid' (JoinError ''Could not join session.'') \<notin> set (snd (on_joinSession norm sid code' st))"
    by (rule on_joinSession_not_second_error)
qed

theorem join_second_error_unreachable_witness:
  "sessionExists ''AB23CD'' example_registry \<and>
   fst (addStudent ''AB23CD'' ''c3'' example_registry) \<and>
   snd (on_joinSession normalize_ascii ''c3'' '' ab23cd '' example_server) =
     [JoinRoom ''c3'' ''AB23CD'',
      Emit ''c3'' (JoinedSession ''AB23CD''),
      Broadcast ''AB23CD''
        (AggregateUpdate (getAggregate ''AB23CD'' (snd (addStudent ''AB23CD'' ''c3'' example_registry))))]"
proof -
  have e: "sessionExists ''AB23CD'' example_registry"
    by (simp add: sessionExists_def example_registry_def)
  then have e': "sessionExists (normalize_ascii '' ab23cd '') (reg example_server)"
    by (simp add: normalize_example example_server_def)
  note t = join_second_error_unreachable
    [of "''AB23CD''" example_registry "''c3''" normalize_ascii "'' ab23cd ''" example_server]
  from t e have a: "fst (addStudent ''AB23CD'' ''c3'' example_registry)" by simp
  from t e' have "on_joinSession normalize_ascii ''c3'' '' ab23cd '' example_server =
        (example_server\<lparr>reg := snd (addStudent (normalize_ascii '' ab23cd '') ''c3'' (reg example_server))\<rparr>,
         [JoinRoom ''c3'' (normalize_ascii '' ab23cd ''),
          Emit ''c3'' (JoinedSession (normalize_ascii '' ab23cd '')),
          Broadcast (normalize_ascii '' ab23cd '')
            (AggregateUpdate (getAggregate (normalize_ascii '' ab23cd '')
               (snd (addStudent (normalize_ascii '' ab23cd '') ''c3'' (reg example_server)))))])"
    by simp
  then have b: "snd (on_joinSession normalize_ascii ''c3'' '' ab23cd '' example_server) =
     [JoinRoom ''c3'' ''AB23CD'',
      Emit ''c3'' (JoinedSession ''AB23CD''),
      Broadcast ''AB23CD''
        (AggregateUpdate (getAggregate ''AB23CD'' (snd (addStudent ''AB23CD'' ''c3'' example_registry))))]"
    by (simp add: normalize_example example_server_def)
  from e a b show ?thesis by simp
qed

lemma createSession_Some:
  assumes "createSession teacher now rs s = Some (code, s')"
  shows "map_of (sessions s) code = None"
    and "length code = 6" and "set code \<subseteq> set chars"
    and "map_of (sessions s') code =
           Some \<lparr>teacherSocketId = teacher, clients = [], createdAt = now\<rparr>"
    and "code' \<noteq> code \<Longrightarrow> map_of (sessions s') code' = map_of (sessions s) code'"
    and "map_of (socketToSession s') = (map_of (socketToSession s))(teacher \<mapsto> (code, Teacher))"
  using assms
  by (auto simp: createSession_def update_conv' split: option.splits dest: generateCode_Some)

text \<open>
  Claim C6. The alphabet has 32 distinct symbols: the uppercase letters and the digits
  without \<open>0\<close>, \<open>O\<close>, \<open>1\<close> and \<open>I\<close>. Every code that \<open>createSession\<close> returns, in any
  registry state (so after any sequence of earlier calls), has six characters, all of the
  alphabet, and is the code of no session that exists when the call is made; it is the code
  of a session afterwards.
\<close>

theorem createSession_code:
  "length chars = 32 \<and> distinct chars \<and>
   set chars = set ''ABCDEFGHIJKLMNOPQRSTUVWXYZ0123456789'' - set ''0O1I'' \<and>
   (\<forall>teacher now rs s code s'.
      createSession teacher now rs s = Some (code, s') \<longrightarrow>
        length code = 6 \<and> set code \<subseteq> set chars \<and>
        \<not> sessionExists code s \<and> sessionExists code s')"
proof (intro conjI allI impI)
  show "length chars = 32" by (rule length_chars)
  show "distinct chars" by (rule distinct_chars)
  show "set chars = set ''ABCDEFGHIJKLMNOPQRSTUVWXYZ0123456789'' - set ''0O1I''"
    by (rule set_chars)
next
  fix teacher now rs s code s'
  assume c: "createSession teacher now rs s = Some (code, s')"
  show "length code = 6" using c by (rule createSession_Some)
  show "set code \<subseteq> set chars" using c by (rule createSession_Some)
  show "\<not> sessionExists code s" by (simp add: sessionExists_def createSession_Some(1) [OF c])
  show "sessionExists code s'" by (simp add: sessionExists_def createSession_Some(4) [OF c])
qed

lemma generateCode_retry:
  "generateCode (sessions example_registry) [0, 1, 24, 25, 2, 3, 7, 8, 9, 10, 30, 31] = Some ''HJKL89''"
  by (simp add: generateCode.simps chars_def example_registry_def)

theorem createSession_code_witness:
  "map_option fst (createSession ''T2'' 5 [0, 1, 24, 25, 2, 3, 7, 8, 9, 10, 30, 31] example_registry)
     = Some ''HJKL89'' \<and>
   length ''HJKL89'' = 6 \<and> set ''HJKL89'' \<subseteq> set chars \<and>
   \<not> sessionExists ''HJKL89'' example_registry"
proof -
  obtain s' where c:
    "createSession ''T2'' 5 [0, 1, 24, 25, 2, 3, 7, 8, 9, 10, 30, 31] example_registry
       = Some (''HJKL89'', s')"
    by (simp add: createSession_def generateCode_retry)
  note t = createSession_code [THEN conjunct2, THEN conjunct2, THEN conjunct2, rule_format, OF c]
  from c t show ?thesis by simp
qed

lemma getAggregate_fresh:
  assumes "createSession teacher now rs s = Some (code, s1)"
  shows "getAggregate code s1 =
           Some [(''gotit'', Num 0), (''neutral'', Num 0), (''confused'', Num 0),
                 (''lost'', Num 0), (''total'', Num 0)]"
  by (simp add: getAggregate_def createSession_Some(4) [OF assms])

lemma getAggregate_two_students:
  assumes "createSession teacher now rs s = Some (code, s1)" and "c1 \<noteq> c2"
  shows "getAggregate code (snd (addStudent code c2 (snd (addStudent code c1 s1)))) =
           Some [(''gotit'', Num 0), (''neutral'', Num 2), (''confused'', Num 0),
                 (''lost'', Num 0), (''total'', Num 2)]"
  using assms(2)
  by (simp add: getAggregate_def addStudent_def createSession_Some(4) [OF assms(1)]
      update_conv' increment_def)

lemma no_self_join_example_ops: "no_self_join example_ops empty_registry"
  by (simp add: example_ops_def empty_registry_def createSession_def generateCode_example
      addStudent_def)

lemma participants_excluding_teacher_absent:
  assumes "map_of (clients sess) (teacherSocketId sess) = None"
  shows "participants_excluding_teacher sess = length (clients sess)"
proof -
  from assms have "teacherSocketId sess \<notin> fst ` set (clients sess)"
    by (simp add: map_of_eq_None_iff)
  then have "filter (\<lambda>(sid, level). sid \<noteq> teacherSocketId sess) (clients sess) = clients sess"
    by (intro filter_True) force
  then show ?thesis by (simp add: participants_excluding_teacher_def)
qed

lemma getAggregate_total_excludes_teacher:
  assumes "no_self_join xs empty_registry" and "run xs empty_registry = Some s"
    and "map_of (sessions s) code = Some sess"
  shows "\<exists>agg. getAggregate code s = Some agg \<and>
           map_of agg ''total'' = Some (Num (participants_excluding_teacher sess))"
proof -
  from empty_owner assms(1,2) have "owner_not_participant s" by (rule run_owner)
  then have "map_of (clients sess) (teacherSocketId sess) = None"
    using assms(3) by (rule owner_lookup)
  then have "participants_excluding_teacher sess = length (clients sess)"
    by (rule participants_excluding_teacher_absent)
  then show ?thesis by (simp add: getAggregate_def assms(3) update_conv')
qed

text \<open>
  Claim C4, as amended. \<open>getAggregate\<close> returns null exactly when the code has no session.
  Otherwise, for each of the four levels the count is the number of participant entries at
  that level, and \<open>total\<close> is the number of participant entries. The teacher's registration
  by \<open>createSession\<close> is not a participant entry: a session just created has all counts 0,
  and after two different connections have joined it the aggregate is \<open>neutral = 2\<close>,
  \<open>total = 2\<close> and 0 elsewhere. \<open>total\<close> counts whatever the participant map holds, so a
  teacher who has joined their own session is counted (the closed example after the
  theorem). What holds of the teacher: in every registry reached from the empty one by a
  sequence of operations in which \<open>addStudent\<close> is never applied to a session and that
  session's own owner, \<open>total\<close> is the number of participant entries other than the
  teacher's.
\<close>

theorem getAggregate_spec:
  "((getAggregate code s = None) = (map_of (sessions s) code = None)) \<and>
   (\<forall>sess. map_of (sessions s) code = Some sess \<longrightarrow>
      (\<exists>agg. getAggregate code s = Some agg \<and>
         (\<forall>l \<in> set FEEDBACK_LEVELS.
            map_of agg l = Some (Num (length (filter (\<lambda>(c, lv). lv = l) (clients sess))))) \<and>
         map_of agg ''total'' = Some (Num (length (clients sess))))) \<and>
   (\<forall>teacher now rs code' s1 c1 c2.
      createSession teacher now rs s = Some (code', s1) \<longrightarrow>
        getAggregate code' s1 =
          Some [(''gotit'', Num 0), (''neutral'', Num 0), (''confused'', Num 0),
                (''lost'', Num 0), (''total'', Num 0)] \<and>
        (c1 \<noteq> c2 \<longrightarrow>
           getAggregate code' (snd (addStudent code' c2 (snd (addStudent code' c1 s1)))) =
             Some [(''gotit'', Num 0), (''neutral'', Num 2), (''confused'', Num 0),
                   (''lost'', Num 0), (''total'', Num 2)])) \<and>
   (\<forall>xs sess.
      no_self_join xs empty_registry \<and> run xs empty_registry = Some s \<and>
      map_of (sessions s) code = Some sess \<longrightarrow>
        (\<exists>agg. getAggregate code s = Some agg \<and>
           map_of agg ''total'' = Some (Num (participants_excluding_teacher sess))))"
proof (intro conjI allI impI)
  show "(getAggregate code s = None) = (map_of (sessions s) code = None)"
    by (rule getAggregate_None)
next
  fix sess
  assume Some: "map_of (sessions s) code = Some sess"
  show "\<exists>agg. getAggregate code s = Some agg \<and>
         (\<forall>l \<in> set FEEDBACK_LEVELS.
            map_of agg l = Some (Num (length (filter (\<lambda>(c, lv). lv = l) (clients sess))))) \<and>
         map_of agg ''total'' = Some (Num (length (clients sess)))"
    by (auto simp: getAggregate_def Some FEEDBACK_LEVELS_def update_conv' map_of_fold_increment
        count_list_snd)
next
  fix teacher now rs code' s1 and c1 c2 :: socketId
  assume c: "createSession teacher now rs s = Some (code', s1)"
  show "getAggregate code' s1 =
          Some [(''gotit'', Num 0), (''neutral'', Num 0), (''confused'', Num 0),
                (''lost'', Num 0), (''total'', Num 0)]"
    using c by (rule getAggregate_fresh)
  assume "c1 \<noteq> c2"
  with c show "getAggregate code' (snd (addStudent code' c2 (snd (addStudent code' c1 s1)))) =
             Some [(''gotit'', Num 0), (''neutral'', Num 2), (''confused'', Num 0),
                   (''lost'', Num 0), (''total'', Num 2)]"
    by (rule getAggregate_two_students)
next
  fix xs sess
  assume a: "no_self_join xs empty_registry \<and> run xs empty_registry = Some s \<and>
      map_of (sessions s) code = Some sess"
  then have "no_self_join xs empty_registry" and "run xs empty_registry = Some s"
    and "map_of (sessions s) code = Some sess"
    by simp_all
  then show "\<exists>agg. getAggregate code s = Some agg \<and>
           map_of agg ''total'' = Some (Num (participants_excluding_teacher sess))"
    by (rule getAggregate_total_excludes_teacher)
qed

theorem getAggregate_spec_witness:
  "getAggregate ''AB23CD'' example_registry =
     Some [(''gotit'', Num 0), (''neutral'', Num 2), (''confused'', Num 0),
           (''lost'', Num 0), (''total'', Num 2)] \<and>
   getAggregate ''ZZZZZZ'' example_registry = None \<and>
   participants_excluding_teacher
     \<lparr>teacherSocketId = ''T'', clients = [(''c1'', ''neutral''), (''c2'', ''neutral'')],
      createdAt = 0\<rparr> = 2"
proof -
  let ?sess = "\<lparr>teacherSocketId = ''T'',
                clients = [(''c1'', ''neutral''), (''c2'', ''neutral'')], createdAt = 0\<rparr>"
  obtain s1 where c: "createSession ''T'' 0 [0, 1, 24, 25, 2, 3] empty_registry = Some (''AB23CD'', s1)"
    and s1: "s1 = \<lparr>sessions = [(''AB23CD'', \<lparr>teacherSocketId = ''T'', clients = [], createdAt = 0\<rparr>)],
                   socketToSession = [(''T'', (''AB23CD'', Teacher))]\<rparr>"
    by (simp add: createSession_def generateCode_example empty_registry_def)
  have ne: "''c1'' \<noteq> ''c2''" by simp
  have ex: "snd (addStudent ''AB23CD'' ''c2'' (snd (addStudent ''AB23CD'' ''c1'' s1))) = example_registry"
    by (simp add: s1 addStudent_def example_registry_def)
  have missing: "map_of (sessions example_registry) ''ZZZZZZ'' = None"
    by (simp add: example_registry_def)
  have present: "map_of (sessions example_registry) ''AB23CD'' = Some ?sess"
    by (simp add: example_registry_def)
  have reached: "no_self_join example_ops empty_registry \<and>
      run example_ops empty_registry = Some example_registry \<and>
      map_of (sessions example_registry) ''AB23CD'' = Some ?sess"
    using no_self_join_example_ops run_example_ops present by simp
  note two = getAggregate_spec [of "''AB23CD''" empty_registry, THEN conjunct2, THEN conjunct2,
      THEN conjunct1, rule_format, OF c, THEN conjunct2, rule_format, OF ne]
  note none = getAggregate_spec [of "''ZZZZZZ''" example_registry, THEN conjunct1]
  note excl = getAggregate_spec [of "''AB23CD''" example_registry, THEN conjunct2,
      THEN conjunct2, THEN conjunct2, rule_format, OF reached]
  from two ex have agg: "getAggregate ''AB23CD'' example_registry =
     Some [(''gotit'', Num 0), (''neutral'', Num 2), (''confused'', Num 0),
           (''lost'', Num 0), (''total'', Num 2)]"
    by simp
  with excl have "participants_excluding_teacher ?sess = 2" by simp
  with agg none missing show ?thesis by simp
qed

theorem teacher_counted_in_total:
  "run [CreateSession ''T'' 0 [0, 1, 24, 25, 2, 3], AddStudent ''AB23CD'' ''T''] empty_registry
     \<noteq> None \<and>
   getAggregate ''AB23CD''
     (the (run [CreateSession ''T'' 0 [0, 1, 24, 25, 2, 3], AddStudent ''AB23CD'' ''T'']
            empty_registry)) =
     Some [(''gotit'', Num 0), (''neutral'', Num 1), (''confused'', Num 0),
           (''lost'', Num 0), (''total'', Num 1)] \<and>
   teacherSocketId (the (map_of (sessions
     (the (run [CreateSession ''T'' 0 [0, 1, 24, 25, 2, 3], AddStudent ''AB23CD'' ''T'']
            empty_registry))) ''AB23CD'')) = ''T'' \<and>
   participants_excluding_teacher (the (map_of (sessions
     (the (run [CreateSession ''T'' 0 [0, 1, 24, 25, 2, 3], AddStudent ''AB23CD'' ''T'']
            empty_registry))) ''AB23CD'')) = 0"
  by (simp add: empty_registry_def createSession_def generateCode_example addStudent_def
      getAggregate_def increment_def participants_excluding_teacher_def)

lemma increment_levels:
  "increment ''gotit''
     [(''gotit'', Num a), (''neutral'', Num b), (''confused'', Num c), (''lost'', Num d)] =
     [(''gotit'', Num (Suc a)), (''neutral'', Num b), (''confused'', Num c), (''lost'', Num d)]"
  "increment ''neutral''
     [(''gotit'', Num a), (''neutral'', Num b), (''confused'', Num c), (''lost'', Num d)] =
     [(''gotit'', Num a), (''neutral'', Num (Suc b)), (''confused'', Num c), (''lost'', Num d)]"
  "increment ''confused''
     [(''gotit'', Num a), (''neutral'', Num b), (''confused'', Num c), (''lost'', Num d)] =
     [(''gotit'', Num a), (''neutral'', Num b), (''confused'', Num (Suc c)), (''lost'', Num d)]"
  "increment ''lost''
     [(''gotit'', Num a), (''neutral'', Num b), (''confused'', Num c), (''lost'', Num d)] =
     [(''gotit'', Num a), (''neutral'', Num b), (''confused'', Num c), (''lost'', Num (Suc d))]"
  by (simp_all add: increment_def)

lemma fold_increment_valid:
  "\<forall>x \<in> set ls. x \<in> set FEEDBACK_LEVELS \<Longrightarrow>
   fold increment ls
     [(''gotit'', Num a), (''neutral'', Num b), (''confused'', Num c), (''lost'', Num d)] =
     [(''gotit'', Num (a + count_list ls ''gotit'')),
      (''neutral'', Num (b + count_list ls ''neutral'')),
      (''confused'', Num (c + count_list ls ''confused'')),
      (''lost'', Num (d + count_list ls ''lost''))]"
proof (induction ls arbitrary: a b c d)
  case Nil
  show ?case by simp
next
  case (Cons x ls)
  from Cons.prems have x: "x = ''gotit'' \<or> x = ''neutral'' \<or> x = ''confused'' \<or> x = ''lost''"
    and rest: "\<forall>y \<in> set ls. y \<in> set FEEDBACK_LEVELS"
    by (auto simp: FEEDBACK_LEVELS_def)
  from x show ?case
  proof (elim disjE)
    assume "x = ''gotit''"
    then show ?thesis by (simp add: increment_levels Cons.IH [OF rest])
  next
    assume "x = ''neutral''"
    then show ?thesis by (simp add: increment_levels Cons.IH [OF rest])
  next
    assume "x = ''confused''"
    then show ?thesis by (simp add: increment_levels Cons.IH [OF rest])
  next
    assume "x = ''lost''"
    then show ?thesis by (simp add: increment_levels Cons.IH [OF rest])
  qed
qed

lemma count_list_levels:
  "\<forall>x \<in> set ls. x \<in> set FEEDBACK_LEVELS \<Longrightarrow>
   count_list ls ''gotit'' + count_list ls ''neutral'' + count_list ls ''confused'' +
     count_list ls ''lost'' = length ls"
  by (induction ls) (auto simp: FEEDBACK_LEVELS_def)

lemma getAggregate_valid:
  assumes "levels_valid s" and "getAggregate code s = Some agg"
  shows "\<exists>a b c d. agg =
           [(''gotit'', Num a), (''neutral'', Num b), (''confused'', Num c), (''lost'', Num d),
            (''total'', Num (a + b + c + d))]"
proof -
  from assms(2) obtain sess where Some: "map_of (sessions s) code = Some sess"
    and agg: "agg = AList.update ''total'' (Num (length (clients sess)))
                 (fold increment (map snd (clients sess))
                    [(''gotit'', Num 0), (''neutral'', Num 0),
                     (''confused'', Num 0), (''lost'', Num 0)])"
    by (auto simp: getAggregate_def split: option.splits)
  from assms(1) Some have "list_all (\<lambda>(sid, level). level \<in> set FEEDBACK_LEVELS) (clients sess)"
    unfolding levels_valid_def by (auto dest: list_all_lookup)
  then have v: "\<forall>x \<in> set (map snd (clients sess)). x \<in> set FEEDBACK_LEVELS"
    by (auto simp: list_all_iff)
  have len: "length (clients sess) =
      count_list (map snd (clients sess)) ''gotit'' + count_list (map snd (clients sess)) ''neutral'' +
      count_list (map snd (clients sess)) ''confused'' + count_list (map snd (clients sess)) ''lost''"
    using count_list_levels [OF v] by simp
  have "agg = [(''gotit'', Num (count_list (map snd (clients sess)) ''gotit'')),
      (''neutral'', Num (count_list (map snd (clients sess)) ''neutral'')),
      (''confused'', Num (count_list (map snd (clients sess)) ''confused'')),
      (''lost'', Num (count_list (map snd (clients sess)) ''lost'')),
      (''total'', Num (length (clients sess)))]"
    by (simp add: agg fold_increment_valid [OF v])
  with len show ?thesis by metis
qed

text \<open>
  Claim C10. The empty registry stores only valid levels, every registry operation keeps it
  so, and therefore every registry reached from the empty one by a sequence of operations
  stores only the four feedback levels. For every session of such a registry the aggregate
  has exactly the five properties \<open>gotit\<close>, \<open>neutral\<close>, \<open>confused\<close>, \<open>lost\<close> and
  \<open>total\<close>, all numbers, and \<open>total\<close> is the sum of the other four.
\<close>

theorem levels_valid_reachable:
  "levels_valid empty_registry \<and>
   (\<forall>x s s'. levels_valid s \<and> apply_op x s = Some s' \<longrightarrow> levels_valid s') \<and>
   (\<forall>xs s. run xs empty_registry = Some s \<longrightarrow>
      levels_valid s \<and>
      (\<forall>code agg. getAggregate code s = Some agg \<longrightarrow>
         (\<exists>a b c d. agg =
            [(''gotit'', Num a), (''neutral'', Num b), (''confused'', Num c), (''lost'', Num d),
             (''total'', Num (a + b + c + d))])))"
proof (intro conjI allI impI)
  show "levels_valid empty_registry" by (rule empty_levels_valid)
next
  fix x s s'
  assume "levels_valid s \<and> apply_op x s = Some s'"
  then show "levels_valid s'" by (blast intro: apply_op_levels_valid)
next
  fix xs s
  assume "run xs empty_registry = Some s"
  with empty_levels_valid show "levels_valid s" by (rule run_levels_valid)
next
  fix xs s code agg
  assume "run xs empty_registry = Some s"
  with empty_levels_valid have "levels_valid s" by (rule run_levels_valid)
  moreover assume "getAggregate code s = Some agg"
  ultimately show "\<exists>a b c d. agg =
            [(''gotit'', Num a), (''neutral'', Num b), (''confused'', Num c), (''lost'', Num d),
             (''total'', Num (a + b + c + d))]"
    by (rule getAggregate_valid)
qed

lemma run_feedback_ops:
  "run feedback_ops empty_registry =
     Some (example_registry\<lparr>sessions :=
       [(''AB23CD'', \<lparr>teacherSocketId = ''T'',
           clients = [(''c1'', ''lost''), (''c2'', ''neutral'')], createdAt = 0\<rparr>)]\<rparr>)"
  by (simp add: feedback_ops_def example_ops_def example_registry_def empty_registry_def
      createSession_def generateCode_example addStudent_def updateFeedback_def FEEDBACK_LEVELS_def)

theorem levels_valid_reachable_witness:
  "levels_valid (the (run feedback_ops empty_registry)) \<and>
   getAggregate ''AB23CD'' (the (run feedback_ops empty_registry)) =
     Some [(''gotit'', Num 0), (''neutral'', Num 1), (''confused'', Num 0), (''lost'', Num 1),
           (''total'', Num (0 + 1 + 0 + 1))]"
proof -
  note t = levels_valid_reachable [THEN conjunct2, THEN conjunct2, rule_format,
      OF run_feedback_ops]
  have "getAggregate ''AB23CD'' (the (run feedback_ops empty_registry)) =
     Some [(''gotit'', Num 0), (''neutral'', Num 1), (''confused'', Num 0), (''lost'', Num 1),
           (''total'', Num 2)]"
    by (simp add: run_feedback_ops getAggregate_def example_registry_def increment_def)
  with t [THEN conjunct1] show ?thesis by (simp add: run_feedback_ops)
qed

lemma length_delete_present:
  "distinct (map fst al) \<Longrightarrow> map_of al k \<noteq> None \<Longrightarrow> Suc (length (AList.delete k al)) = length al"
proof (induction al)
  case Nil
  then show ?case by simp
next
  case (Cons p al)
  show ?case
  proof (cases "fst p = k")
    case True
    with Cons.prems have "k \<notin> fst ` set al" by auto
    with True show ?thesis by (cases p) simp
  next
    case False
    with Cons show ?thesis by (cases p) auto
  qed
qed

lemma removeSocket_None:
  "map_of (socketToSession s) sid = None \<Longrightarrow> removeSocket sid s = (None, s)"
  by (simp add: removeSocket_def)

lemma removeSocket_Some:
  assumes "map_of (socketToSession s) sid = Some (code, role)"
  shows "fst (removeSocket sid s) = Some (code, role)"
    and "map_of (socketToSession (snd (removeSocket sid s))) sid = None"
    and "x \<noteq> sid \<Longrightarrow>
           map_of (socketToSession (snd (removeSocket sid s))) x = map_of (socketToSession s) x"
    and "role = Teacher \<Longrightarrow> sessions (snd (removeSocket sid s)) = sessions s"
    and "code' \<noteq> code \<Longrightarrow>
           map_of (sessions (snd (removeSocket sid s))) code' = map_of (sessions s) code'"
  using assms
  by (auto simp: removeSocket_def Let_def delete_conv' update_conv' split: option.splits)

lemma removeSocket_student:
  assumes "reverse_index_sound s" and "distinct_keys s"
    and "map_of (socketToSession s) sid = Some (code, Student)"
  shows "\<exists>sess. map_of (sessions s) code = Some sess \<and> map_of (clients sess) sid \<noteq> None \<and>
           map_of (sessions (snd (removeSocket sid s))) code =
             Some (sess\<lparr>clients := AList.delete sid (clients sess)\<rparr>) \<and>
           Suc (length (AList.delete sid (clients sess))) = length (clients sess)"
proof -
  from assms(1,3) have "entry_matches s sid (code, Student)" by (rule reverse_index_soundD)
  then obtain sess where Some: "map_of (sessions s) code = Some sess"
    and mem: "map_of (clients sess) sid \<noteq> None"
    by (auto simp: entry_matches_def split: option.splits)
  from assms(2) Some have "distinct (map fst (clients sess))" by (rule distinct_keys_clients)
  then have "Suc (length (AList.delete sid (clients sess))) = length (clients sess)"
    using mem by (rule length_delete_present)
  moreover from assms(3) Some
  have "map_of (sessions (snd (removeSocket sid s))) code =
          Some (sess\<lparr>clients := AList.delete sid (clients sess)\<rparr>)"
    by (simp add: removeSocket_def update_conv')
  ultimately show ?thesis using Some mem by blast
qed

lemma run_invariants:
  assumes "run xs empty_registry = Some s"
  shows "reverse_index_sound s" and "distinct_keys s"
  using assms empty_sound empty_distinct_keys
  by (blast intro: run_sound run_distinct_keys)+

text \<open>
  Claim C7. In every registry reached from the empty one: \<open>removeSocket\<close> on a connection
  without a reverse-index entry returns null and changes nothing. On a connection with the
  entry \<open>{code, role}\<close> it returns that entry and deletes it, leaving every other entry. If
  the role is teacher the sessions are untouched. If the role is student the connection was
  a participant of the session \<open>code\<close> and no longer is, every other participant and every
  other session are as before, and the \<open>total\<close> of the session's aggregate is one less.
\<close>

theorem removeSocket_spec:
  assumes "run xs empty_registry = Some s"
  shows
  "(map_of (socketToSession s) sid = None \<longrightarrow> removeSocket sid s = (None, s)) \<and>
   (\<forall>code role. map_of (socketToSession s) sid = Some (code, role) \<longrightarrow>
      fst (removeSocket sid s) = Some (code, role) \<and>
      map_of (socketToSession (snd (removeSocket sid s))) sid = None \<and>
      (\<forall>x. x \<noteq> sid \<longrightarrow>
         map_of (socketToSession (snd (removeSocket sid s))) x = map_of (socketToSession s) x) \<and>
      (role = Teacher \<longrightarrow> sessions (snd (removeSocket sid s)) = sessions s) \<and>
      (role = Student \<longrightarrow>
         (\<forall>code'. code' \<noteq> code \<longrightarrow>
            map_of (sessions (snd (removeSocket sid s))) code' = map_of (sessions s) code') \<and>
         (\<exists>sess sess'.
            map_of (sessions s) code = Some sess \<and>
            map_of (sessions (snd (removeSocket sid s))) code = Some sess' \<and>
            teacherSocketId sess' = teacherSocketId sess \<and> createdAt sess' = createdAt sess \<and>
            map_of (clients sess) sid \<noteq> None \<and> map_of (clients sess') sid = None \<and>
            (\<forall>x. x \<noteq> sid \<longrightarrow> map_of (clients sess') x = map_of (clients sess) x)) \<and>
         (\<exists>agg agg' n.
            getAggregate code s = Some agg \<and>
            getAggregate code (snd (removeSocket sid s)) = Some agg' \<and>
            map_of agg ''total'' = Some (Num (Suc n)) \<and>
            map_of agg' ''total'' = Some (Num n))))"
proof (intro conjI allI impI)
  assume "map_of (socketToSession s) sid = None"
  then show "removeSocket sid s = (None, s)" by (rule removeSocket_None)
next
  fix code role
  assume e: "map_of (socketToSession s) sid = Some (code, role)"
  show "fst (removeSocket sid s) = Some (code, role)" by (rule removeSocket_Some [OF e])
  show "map_of (socketToSession (snd (removeSocket sid s))) sid = None"
    by (rule removeSocket_Some [OF e])
next
  fix code role x
  assume "map_of (socketToSession s) sid = Some (code, role)" and "x \<noteq> sid"
  then show "map_of (socketToSession (snd (removeSocket sid s))) x = map_of (socketToSession s) x"
    by (rule removeSocket_Some)
next
  fix code role
  assume "map_of (socketToSession s) sid = Some (code, role)" and "role = Teacher"
  then show "sessions (snd (removeSocket sid s)) = sessions s" by (rule removeSocket_Some)
next
  fix code role code'
  assume "map_of (socketToSession s) sid = Some (code, role)" and "role = Student"
    and "code' \<noteq> code"
  then show "map_of (sessions (snd (removeSocket sid s))) code' = map_of (sessions s) code'"
    by (simp add: removeSocket_Some)
next
  fix code role
  assume "map_of (socketToSession s) sid = Some (code, role)" and "role = Student"
  then have e: "map_of (socketToSession s) sid = Some (code, Student)" by simp
  from removeSocket_student [OF run_invariants [OF assms] e]
  obtain sess where Some: "map_of (sessions s) code = Some sess"
    and mem: "map_of (clients sess) sid \<noteq> None"
    and new: "map_of (sessions (snd (removeSocket sid s))) code =
                Some (sess\<lparr>clients := AList.delete sid (clients sess)\<rparr>)"
    and len: "Suc (length (AList.delete sid (clients sess))) = length (clients sess)"
    by blast
  from Some new mem
  show "\<exists>sess sess'.
            map_of (sessions s) code = Some sess \<and>
            map_of (sessions (snd (removeSocket sid s))) code = Some sess' \<and>
            teacherSocketId sess' = teacherSocketId sess \<and> createdAt sess' = createdAt sess \<and>
            map_of (clients sess) sid \<noteq> None \<and> map_of (clients sess') sid = None \<and>
            (\<forall>x. x \<noteq> sid \<longrightarrow> map_of (clients sess') x = map_of (clients sess) x)"
    by (simp add: delete_conv')
  have "getAggregate code s = Some (AList.update ''total'' (Num (length (clients sess)))
                 (fold increment (map snd (clients sess))
                    [(''gotit'', Num 0), (''neutral'', Num 0),
                     (''confused'', Num 0), (''lost'', Num 0)]))"
    by (simp add: getAggregate_def Some)
  moreover have "getAggregate code (snd (removeSocket sid s)) =
      Some (AList.update ''total'' (Num (length (AList.delete sid (clients sess))))
                 (fold increment (map snd (AList.delete sid (clients sess)))
                    [(''gotit'', Num 0), (''neutral'', Num 0),
                     (''confused'', Num 0), (''lost'', Num 0)]))"
    by (simp add: getAggregate_def new)
  ultimately show "\<exists>agg agg' n.
            getAggregate code s = Some agg \<and>
            getAggregate code (snd (removeSocket sid s)) = Some agg' \<and>
            map_of agg ''total'' = Some (Num (Suc n)) \<and>
            map_of agg' ''total'' = Some (Num n)"
    using len by (simp add: update_conv')
qed


theorem removeSocket_spec_witness:
  "fst (removeSocket ''c1'' example_registry) = Some (''AB23CD'', Student) \<and>
   map_of (socketToSession (snd (removeSocket ''c1'' example_registry))) ''c1'' = None \<and>
   map_of (socketToSession (snd (removeSocket ''c1'' example_registry))) ''c2'' =
     Some (''AB23CD'', Student) \<and>
   fst (removeSocket ''T'' example_registry) = Some (''AB23CD'', Teacher) \<and>
   sessions (snd (removeSocket ''T'' example_registry)) = sessions example_registry \<and>
   removeSocket ''zz'' example_registry = (None, example_registry)"
proof -
  have student: "map_of (socketToSession example_registry) ''c1'' = Some (''AB23CD'', Student)"
    by (simp add: example_registry_def)
  have teacher: "map_of (socketToSession example_registry) ''T'' = Some (''AB23CD'', Teacher)"
    by (simp add: example_registry_def)
  have nobody: "map_of (socketToSession example_registry) ''zz'' = None"
    by (simp add: example_registry_def)
  have other: "map_of (socketToSession example_registry) ''c2'' = Some (''AB23CD'', Student)"
    by (simp add: example_registry_def)
  note a = removeSocket_spec [OF run_example_ops, of "''c1''", THEN conjunct2, rule_format,
      OF student]
  note b = removeSocket_spec [OF run_example_ops, of "''T''", THEN conjunct2, rule_format,
      OF teacher]
  note c = removeSocket_spec [OF run_example_ops, of "''zz''", THEN conjunct1, rule_format,
      OF nobody]
  from a have a1: "fst (removeSocket ''c1'' example_registry) = Some (''AB23CD'', Student)"
    and a2: "map_of (socketToSession (snd (removeSocket ''c1'' example_registry))) ''c1'' = None"
    and a3: "map_of (socketToSession (snd (removeSocket ''c1'' example_registry))) ''c2'' =
               map_of (socketToSession example_registry) ''c2''"
    by simp_all
  from b have b1: "fst (removeSocket ''T'' example_registry) = Some (''AB23CD'', Teacher)"
    and b2: "sessions (snd (removeSocket ''T'' example_registry)) = sessions example_registry"
    by simp_all
  from a1 a2 a3 other b1 b2 c show ?thesis by simp
qed

lemma run_append:
  "run (xs @ ys) s = (case run xs s of None \<Rightarrow> None | Some s' \<Rightarrow> run ys s')"
  by (induction xs arbitrary: s) (auto split: option.splits)

lemma run_lecture_ops: "run lecture_ops empty_registry = Some lecture_registry"
  by (simp add: lecture_ops_def run_append run_feedback_ops lecture_registry_def
      example_registry_def removeSocket_def)

lemma no_self_join_lecture_ops: "no_self_join lecture_ops empty_registry"
  by (simp add: lecture_ops_def feedback_ops_def example_ops_def empty_registry_def
      createSession_def generateCode_example addStudent_def updateFeedback_def
      FEEDBACK_LEVELS_def removeSocket_def)


text \<open>
  Claim C1, as amended. \<open>addStudent\<close> does not look at the owner, so an owner who joins
  their own session becomes a participant entry of it (the closed example after the
  theorem).
  What holds: in every registry reached from the empty one by a sequence of operations in
  which \<open>addStudent\<close> is never applied to a session and that session's own owner, no
  session's participant map has the owner as a key.
\<close>

theorem owner_not_participant_reachable:
  assumes "no_self_join xs empty_registry" and "run xs empty_registry = Some s"
  shows "owner_not_participant s"
  using empty_owner assms by (rule run_owner)

theorem owner_not_participant_reachable_witness:
  "no_self_join lecture_ops empty_registry \<and>
   run lecture_ops empty_registry = Some lecture_registry \<and>
   owner_not_participant lecture_registry"
  using owner_not_participant_reachable [OF no_self_join_lecture_ops run_lecture_ops]
    no_self_join_lecture_ops run_lecture_ops
  by simp

theorem owner_joins_own_session:
  "run [CreateSession ''T'' 0 [0, 1, 24, 25, 2, 3], AddStudent ''AB23CD'' ''T''] empty_registry
     \<noteq> None \<and>
   \<not> owner_not_participant
       (the (run [CreateSession ''T'' 0 [0, 1, 24, 25, 2, 3], AddStudent ''AB23CD'' ''T'']
              empty_registry))"
  by (simp add: empty_registry_def createSession_def generateCode_example addStudent_def
      owner_not_participant_def)




lemma handle_lastFeedbackTime:
  assumes "handle norm sid now ev st = Some (st', out)"
  shows "lastFeedbackTime st' =
          (if is_feedback ev \<and> \<not> throttled sid now st
           then AList.update sid now (lastFeedbackTime st)
           else if ev = OnDisconnect then AList.delete sid (lastFeedbackTime st)
           else lastFeedbackTime st)"
proof (cases ev)
  case (OnCreateSession rs)
  with assms show ?thesis
    by (auto simp: on_createSession_def split: option.splits)
next
  case (OnJoinSession code)
  with assms show ?thesis
    by (auto simp: on_joinSession_def Let_def split: prod.splits if_splits)
next
  case (OnFeedback code level)
  with assms show ?thesis
    by (auto simp: on_feedback_def Let_def split: prod.splits if_splits)
next
  case (OnEndSession code)
  with assms show ?thesis
    by (auto simp: on_endSession_def Let_def)
next
  case OnDisconnect
  with assms show ?thesis
    by (auto simp: on_disconnect_def Let_def split: prod.splits option.splits if_splits)
qed

lemma accepted_silent:
  "list_all (\<lambda>(sid', now', ev'). sid' \<noteq> c) evs \<Longrightarrow> accepted norm c evs st = []"
  by (induction evs arbitrary: st) (auto split: option.splits)

lemma accepted_spaced:
  "ends_at_disconnect c evs \<Longrightarrow>
     sorted_wrt (\<lambda>a b. a + THROTTLE_MS \<le> b) (accepted norm c evs st) \<and>
     (\<forall>t \<in> set (accepted norm c evs st).
        or_zero (map_of (lastFeedbackTime st) c) + THROTTLE_MS \<le> t)"
proof (induction evs arbitrary: st)
  case Nil
  show ?case by simp
next
  case (Cons e evs)
  obtain sid now ev where e: "e = (sid, now, ev)" by (cases e)
  show ?case
  proof (cases "handle norm sid now ev st")
    case None
    with e show ?thesis by simp
  next
    case (Some r)
    obtain st' out where r: "r = (st', out)" by (cases r)
    note h = handle_lastFeedbackTime [OF Some [unfolded r]]
    show ?thesis
    proof (cases "sid = c \<and> ev = OnDisconnect")
      case True
      with Cons.prems e have "accepted norm c evs st' = []"
        by (simp add: accepted_silent)
      with True e Some r show ?thesis by simp
    next
      case False
      with Cons.prems e have "ends_at_disconnect c evs" by auto
      then have IH: "sorted_wrt (\<lambda>a b. a + THROTTLE_MS \<le> b) (accepted norm c evs st')"
        "\<forall>t \<in> set (accepted norm c evs st').
           or_zero (map_of (lastFeedbackTime st') c) + THROTTLE_MS \<le> t"
        using Cons.IH [of st'] by simp_all
      show ?thesis
      proof (cases "sid = c \<and> is_feedback ev \<and> \<not> throttled sid now st")
        case True
        then have sc: "sid = c" and fb: "is_feedback ev" and nt: "\<not> throttled c now st"
          by auto
        from h sc fb nt have "lastFeedbackTime st' = AList.update c now (lastFeedbackTime st)"
          by simp
        then have "or_zero (map_of (lastFeedbackTime st') c) = now"
          by (simp add: update_conv' or_zero_def)
        with IH(2) have later: "\<forall>t \<in> set (accepted norm c evs st'). now + THROTTLE_MS \<le> t"
          by simp
        from nt have now: "or_zero (map_of (lastFeedbackTime st) c) + THROTTLE_MS \<le> now"
          by (simp add: throttled_def)
        have acc: "accepted norm c (e # evs) st = now # accepted norm c evs st'"
          using sc fb nt e Some r by simp
        from later now have "\<forall>t \<in> set (accepted norm c evs st').
            or_zero (map_of (lastFeedbackTime st) c) + THROTTLE_MS \<le> t"
          by (auto simp: THROTTLE_MS_def)
        with IH(1) later now show ?thesis by (simp add: acc)
      next
        case nacc: False
        with False h have "map_of (lastFeedbackTime st') c = map_of (lastFeedbackTime st) c"
          by (auto simp: update_conv' delete_conv')
        moreover have "accepted norm c (e # evs) st = accepted norm c evs st'"
          using nacc e Some r by auto
        ultimately show ?thesis using IH by simp
      qed
    qed
  qed
qed


lemma first_feedback:
  "fst (on_feedback normalize_ascii ''c1'' 1000000 '' ab23cd '' ''confused'' example_server) =
     after_first_feedback"
  by (simp add: on_feedback_def throttled_def or_zero_def THROTTLE_MS_def example_server_def
      normalize_example updateFeedback_def FEEDBACK_LEVELS_def example_registry_def
      after_first_feedback_def Let_def)

lemma accepted_feedback_arrivals:
  "accepted normalize_ascii ''c1'' feedback_arrivals example_server = [1000000, 1000500]"
  by (simp add: feedback_arrivals_def on_feedback_def throttled_def or_zero_def THROTTLE_MS_def
      example_server_def normalize_example updateFeedback_def FEEDBACK_LEVELS_def
      example_registry_def Let_def)

text \<open>
  Claim C5. A feedback event that the rate limit catches is dropped: the handler returns
  the state unchanged and sends nothing. One that passes reaches \<open>updateFeedback\<close> and its
  time is recorded for the connection. With a recorded time \<open>last\<close> the event is caught
  exactly when \<open>now - last < 500\<close>; with none, \<open>last\<close> reads as 0. Hence, over any sequence
  of events handled from any state, the feedback events of one connection that pass the rate
  limit are at least 500 apart, each from every later one. (A connection's events end with
  its disconnect, which clears the recorded time.)
\<close>

theorem feedback_throttle:
  "(throttled sid now st \<longrightarrow> on_feedback norm sid now code level st = (st, [])) \<and>
   (\<not> throttled sid now st \<longrightarrow>
      reg (fst (on_feedback norm sid now code level st)) =
        snd (updateFeedback (norm code) sid level (reg st)) \<and>
      map_of (lastFeedbackTime (fst (on_feedback norm sid now code level st))) sid = Some now) \<and>
   (\<forall>last. map_of (lastFeedbackTime st) sid = Some last \<longrightarrow>
      throttled sid now st = (now - last < 500)) \<and>
   (map_of (lastFeedbackTime st) sid = None \<longrightarrow> throttled sid now st = (now < 500)) \<and>
   (\<forall>c evs i j.
      ends_at_disconnect c evs \<and> i < j \<and> j < length (accepted norm c evs st) \<longrightarrow>
        accepted norm c evs st ! i + 500 \<le> accepted norm c evs st ! j)"
proof (intro conjI allI impI)
  assume "throttled sid now st"
  then show "on_feedback norm sid now code level st = (st, [])"
    by (simp add: on_feedback_def)
next
  assume n: "\<not> throttled sid now st"
  then show "reg (fst (on_feedback norm sid now code level st)) =
        snd (updateFeedback (norm code) sid level (reg st))"
    by (simp add: on_feedback_def Let_def case_prod_beta)
  from n show "map_of (lastFeedbackTime (fst (on_feedback norm sid now code level st))) sid = Some now"
    by (simp add: on_feedback_def Let_def case_prod_beta update_conv')
next
  fix last
  assume "map_of (lastFeedbackTime st) sid = Some last"
  then show "throttled sid now st = (now - last < 500)"
    by (simp add: throttled_def or_zero_def THROTTLE_MS_def)
next
  assume "map_of (lastFeedbackTime st) sid = None"
  then show "throttled sid now st = (now < 500)"
    by (simp add: throttled_def or_zero_def THROTTLE_MS_def)
next
  fix c evs i j
  assume a: "ends_at_disconnect c evs \<and> i < j \<and> j < length (accepted norm c evs st)"
  then have "sorted_wrt (\<lambda>a b. a + THROTTLE_MS \<le> b) (accepted norm c evs st)"
    by (simp add: accepted_spaced)
  with a have "accepted norm c evs st ! i + THROTTLE_MS \<le> accepted norm c evs st ! j"
    by (simp add: sorted_wrt_iff_nth_less)
  then show "accepted norm c evs st ! i + 500 \<le> accepted norm c evs st ! j"
    by (simp add: THROTTLE_MS_def)
qed

theorem feedback_throttle_witness:
  "accepted normalize_ascii ''c1'' feedback_arrivals example_server = [1000000, 1000500] \<and>
   (1000000 :: int) + 500 \<le> 1000500 \<and>
   throttled ''c1'' 1000300 after_first_feedback \<and>
   on_feedback normalize_ascii ''c1'' 1000300 '' ab23cd '' ''lost'' after_first_feedback =
     (after_first_feedback, []) \<and>
   \<not> throttled ''c1'' 1000500 after_first_feedback \<and>
   map_of (lastFeedbackTime
     (fst (on_feedback normalize_ascii ''c1'' 1000500 '' ab23cd '' ''lost'' after_first_feedback)))
     ''c1'' = Some 1000500"
proof -
  have live: "ends_at_disconnect ''c1'' feedback_arrivals"
    by (simp add: feedback_arrivals_def)
  have last: "map_of (lastFeedbackTime after_first_feedback) ''c1'' = Some 1000000"
    by (simp add: after_first_feedback_def)
  note acc = accepted_feedback_arrivals
  have idx: "ends_at_disconnect ''c1'' feedback_arrivals \<and> (0::nat) < 1 \<and>
      1 < length (accepted normalize_ascii ''c1'' feedback_arrivals example_server)"
    using live by (simp add: acc)
  note t1 = feedback_throttle [of "''c1''" 1000300 after_first_feedback normalize_ascii
      "'' ab23cd ''" "''lost''"]
  note t2 = feedback_throttle [of "''c1''" 1000500 after_first_feedback normalize_ascii
      "'' ab23cd ''" "''lost''"]
  note t3 = feedback_throttle [of _ _ example_server normalize_ascii, THEN conjunct2,
      THEN conjunct2, THEN conjunct2, THEN conjunct2, rule_format, OF idx]
  from t3 have gap: "(1000000 :: int) + 500 \<le> 1000500" by (simp add: acc)
  from t1 last have thr: "throttled ''c1'' 1000300 after_first_feedback" by simp
  with t1 have drop: "on_feedback normalize_ascii ''c1'' 1000300 '' ab23cd '' ''lost''
      after_first_feedback = (after_first_feedback, [])"
    by simp
  from t2 last have pass: "\<not> throttled ''c1'' 1000500 after_first_feedback" by simp
  with t2 have rec: "map_of (lastFeedbackTime
     (fst (on_feedback normalize_ascii ''c1'' 1000500 '' ab23cd '' ''lost'' after_first_feedback)))
     ''c1'' = Some 1000500"
    by simp
  from acc gap thr drop pass rec show ?thesis by simp
qed

end
